theory Spec2Isabelle
  imports Main
begin

section \<open>Strings\<close>

text \<open>
  A string is a list of 8-bit code units. The helpers below are the string methods the style
  manager calls (\<open>trim\<close>, \<open>split\<close>, \<open>startsWith\<close>, \<open>toLowerCase\<close>, \<open>substring\<close>,
  \<open>indexOf\<close>, \<open>join\<close>), restricted to that alphabet: white space is what \<open>\s\<close> and
  \<open>trim\<close> accept below code 256.
\<close>

definition isSpace :: "char \<Rightarrow> bool" where
  "isSpace c = (c = CHR 0x09 \<or> c = CHR 0x0A \<or> c = CHR 0x0B \<or> c = CHR 0x0C \<or> c = CHR 0x0D
                \<or> c = CHR 0x20 \<or> c = CHR 0xA0)"

text \<open>
  Letter case is folded in two ways. A regular expression with the \<open>i\<close> flag whose literal
  is made of the letters a to z matches, below code 256, these letters and A to Z only:
  \<open>toLowerChar\<close>. It works on the bits of the code unit, lowest first: the capital letters
  are the codes 65 to 90, that is \<open>010xxxxx\<close> with \<open>xxxxx\<close> from 1 to 26, and the small
  letter sets bit 5.
\<close>

fun toLowerChar :: "char \<Rightarrow> char" where
  "toLowerChar (Char b0 b1 b2 b3 b4 b5 b6 b7) =
     (if \<not> b7 \<and> b6 \<and> \<not> b5 \<and> (b0 \<or> b1 \<or> b2 \<or> b3 \<or> b4)
         \<and> \<not> (b4 \<and> b3 \<and> (b2 \<or> (b1 \<and> b0)))
      then Char b0 b1 b2 b3 b4 True b6 b7
      else Char b0 b1 b2 b3 b4 b5 b6 b7)"

text \<open>
  \<open>String.prototype.toLowerCase\<close> folds more: below code 256 it also takes the capitals
  of Latin-1, the codes C0 to DE other than the multiplication sign D7, to the code 32 above
  them. These are the codes \<open>110xxxxx\<close> with \<open>xxxxx\<close> other than 10111 (D7) and 11111
  (DF, the sharp s, a small letter). The section on case folding below says the same in
  terms of the code units.
\<close>

fun toLowerCaseUnit :: "char \<Rightarrow> char" where
  "toLowerCaseUnit (Char b0 b1 b2 b3 b4 b5 b6 b7) =
     (if (\<not> b7 \<and> b6 \<and> \<not> b5 \<and> (b0 \<or> b1 \<or> b2 \<or> b3 \<or> b4)
            \<and> \<not> (b4 \<and> b3 \<and> (b2 \<or> (b1 \<and> b0))))
         \<or> (b7 \<and> b6 \<and> \<not> b5 \<and> \<not> (b4 \<and> b2 \<and> b1 \<and> b0))
      then Char b0 b1 b2 b3 b4 True b6 b7
      else Char b0 b1 b2 b3 b4 b5 b6 b7)"

definition toLowerCase :: "string \<Rightarrow> string" where
  "toLowerCase s = map toLowerCaseUnit s"

definition trim :: "string \<Rightarrow> string" where
  "trim s = rev (dropWhile isSpace (rev (dropWhile isSpace s)))"

fun startsWith :: "string \<Rightarrow> string \<Rightarrow> bool" where
  "startsWith s [] = True"
| "startsWith [] (p # ps) = False"
| "startsWith (c # cs) (p # ps) = (c = p \<and> startsWith cs ps)"

text \<open>A literal of a regular expression with the \<open>i\<close> flag; the literal is given in lower case.\<close>

fun startsWithCI :: "string \<Rightarrow> string \<Rightarrow> bool" where
  "startsWithCI s [] = True"
| "startsWithCI [] (p # ps) = False"
| "startsWithCI (c # cs) (p # ps) = (toLowerChar c = p \<and> startsWithCI cs ps)"

definition substring :: "string \<Rightarrow> nat \<Rightarrow> nat \<Rightarrow> string" where
  "substring s a b = take (b - a) (drop a s)"

text \<open>\<open>s.split(d)\<close> for a one-character separator: the empty string gives one empty piece.\<close>

fun split :: "char \<Rightarrow> string \<Rightarrow> string list" where
  "split d [] = [[]]"
| "split d (c # cs) =
     (if c = d then [] # split d cs
      else (case split d cs of [] \<Rightarrow> [[c]] | r # rs \<Rightarrow> (c # r) # rs))"

fun join :: "string \<Rightarrow> string list \<Rightarrow> string" where
  "join sep [] = []"
| "join sep [x] = x"
| "join sep (x # y # ys) = x @ sep @ join sep (y # ys)"

text \<open>\<open>s.indexOf(c)\<close>: the first position of \<open>c\<close>, or -1.\<close>

definition indexOf :: "string \<Rightarrow> char \<Rightarrow> int" where
  "indexOf s c = (if c \<in> set s then int (length (takeWhile (\<lambda>x. x \<noteq> c) s)) else - 1)"

section \<open>Regular expressions\<close>

text \<open>
  Each regular expression of the source is a matcher anchored at the head of a string, giving
  what the backtracking matcher gives there, and \<open>regexExec\<close> is the search for the leftmost
  position where the matcher succeeds, as \<open>exec\<close>, \<open>match\<close> and \<open>test\<close> do from index 0.
\<close>

fun regexExec :: "(string \<Rightarrow> 'a option) \<Rightarrow> string \<Rightarrow> (nat \<times> 'a) option" where
  "regexExec m [] = (case m [] of Some r \<Rightarrow> Some (0, r) | None \<Rightarrow> None)"
| "regexExec m (c # cs) =
     (case m (c # cs) of
        Some r \<Rightarrow> Some (0, r)
      | None \<Rightarrow> (case regexExec m cs of Some (i, r) \<Rightarrow> Some (Suc i, r) | None \<Rightarrow> None))"

text \<open>
  \<open>/<\/?span[^>]*>/gi\<close> at the head of \<open>s\<close>: the length of the match. After the name, the
  greedy class runs to the first \<open>>\<close>; with no \<open>>\<close> ahead there is no match.
\<close>

definition tagAt :: "string \<Rightarrow> nat option" where
  "tagAt s =
     (let k = (if startsWithCI s ''</span'' then Some 6
               else if startsWithCI s ''<span'' then Some 5 else None)
      in case k of
           None \<Rightarrow> None
         | Some k \<Rightarrow>
             if CHR ''>'' \<in> set (drop k s)
             then Some (k + length (takeWhile (\<lambda>c. c \<noteq> CHR ''>'') (drop k s)) + 1)
             else None)"

text \<open>\<open>/<span[^>]*>|<\/span>/gi\<close> at the head of \<open>s\<close>, the first alternative first.\<close>

definition spanTagAt :: "string \<Rightarrow> nat option" where
  "spanTagAt s =
     (if startsWithCI s ''<span'' \<and> CHR ''>'' \<in> set (drop 5 s)
      then Some (5 + length (takeWhile (\<lambda>c. c \<noteq> CHR ''>'') (drop 5 s)) + 1)
      else if startsWithCI s ''</span>'' then Some 7
      else None)"

text \<open>
  \<open>/name="([^"]*)"/i\<close> at the head of \<open>s\<close>, for \<open>name\<close> one of \<open>class\<close> and \<open>style\<close>:
  the captured group.
\<close>

definition attrAt :: "string \<Rightarrow> string \<Rightarrow> string option" where
  "attrAt name s =
     (let lit = name @ [CHR ''='', CHR 0x22]
      in if startsWithCI s lit \<and> CHR 0x22 \<in> set (drop (length lit) s)
         then Some (takeWhile (\<lambda>c. c \<noteq> CHR 0x22) (drop (length lit) s))
         else None)"

text \<open>
  \<open>new RegExp(`${varName}\\s*:\\s*([^;]+)`)\<close> at the head of \<open>s\<close>: the captured group. The
  second \<open>\s*\<close> takes all the white space after the colon; when a \<open>;\<close> or the end follows it,
  the matcher backtracks by one and the group is the last white-space character.
\<close>

definition varValueAt :: "string \<Rightarrow> string \<Rightarrow> string option" where
  "varValueAt varName s =
     (if startsWith s varName then
        (case dropWhile isSpace (drop (length varName) s) of
           [] \<Rightarrow> None
         | c # t \<Rightarrow>
             if c \<noteq> CHR '':'' then None
             else
               (let ws = takeWhile isSpace t; rest = dropWhile isSpace t
                in case rest of
                     [] \<Rightarrow> (if ws = [] then None else Some [last ws])
                   | d # _ \<Rightarrow>
                       if d \<noteq> CHR '';'' then Some (takeWhile (\<lambda>x. x \<noteq> CHR '';'') rest)
                       else if ws = [] then None else Some [last ws]))
      else None)"

text \<open>
  \<open>new RegExp(`(^|;)\\s*${varName}\\s*:`)\<close>: \<open>varDeclAt\<close> is the part after the group, and
  the group is the start of the string or a \<open>;\<close> anywhere in it.
\<close>

definition varDeclAt :: "string \<Rightarrow> string \<Rightarrow> bool" where
  "varDeclAt varName s =
     (let t = dropWhile isSpace s
      in startsWith t varName \<and>
         (case dropWhile isSpace (drop (length varName) t) of
            [] \<Rightarrow> False
          | c # _ \<Rightarrow> c = CHR '':''))"

fun varDeclAfterSemicolon :: "string \<Rightarrow> string \<Rightarrow> bool" where
  "varDeclAfterSemicolon varName [] = False"
| "varDeclAfterSemicolon varName (c # cs) =
     ((c = CHR '';'' \<and> varDeclAt varName cs) \<or> varDeclAfterSemicolon varName cs)"

definition varDeclTest :: "string \<Rightarrow> string \<Rightarrow> bool" where
  "varDeclTest varName s = (varDeclAt varName s \<or> varDeclAfterSemicolon varName s)"

section \<open>Segments of a selection\<close>

text \<open>
  \<open>SelectionSegment\<close> of \<open>types.ts\<close>. An object with string keys is an association list
  in the order in which \<open>Object.entries\<close> lists it. \<open>assign\<close> is the assignment
  \<open>obj[k] = v\<close> for a key that is neither an array index nor \<open>__proto__\<close>: a key that is
  present keeps its place, a new key goes to the end. Every key that starts with
  \<open>--styler-\<close> is such a key.
\<close>

type_synonym dict = "(string \<times> string) list"

fun assign :: "string \<Rightarrow> string \<Rightarrow> dict \<Rightarrow> dict" where
  "assign k v [] = [(k, v)]"
| "assign k v ((k', v') # m) = (if k' = k then (k, v) # m else (k', v') # assign k v m)"

definition delete :: "string \<Rightarrow> dict \<Rightarrow> dict" where
  "delete k m = filter (\<lambda>e. fst e \<noteq> k) m"

text \<open>
  \<open>setProperty\<close> is the assignment \<open>obj[k] = v\<close> of a string to any key. An object lists
  its array indices first, in ascending order, and then its other keys in the order of their
  creation; an array index is the decimal numeral, without leading zeros, of a number below
  4294967295. Assigning a string to \<open>__proto__\<close> calls the setter of
  \<open>Object.prototype\<close>, which ignores a string, and creates no property.
\<close>

definition numberOf :: "string \<Rightarrow> nat" where
  "numberOf k = fold (\<lambda>c n. 10 * n + (of_char c - 48)) k 0"

definition isArrayIndex :: "string \<Rightarrow> bool" where
  "isArrayIndex k =
     (k \<noteq> [] \<and> list_all (\<lambda>c. c \<in> set ''0123456789'') k \<and> (hd k \<noteq> CHR ''0'' \<or> k = ''0'')
      \<and> numberOf k < 4294967295)"

fun insertIndex :: "string \<Rightarrow> string \<Rightarrow> dict \<Rightarrow> dict" where
  "insertIndex k v [] = [(k, v)]"
| "insertIndex k v ((k', v') # m) =
     (if isArrayIndex k' \<and> numberOf k' < numberOf k then (k', v') # insertIndex k v m
      else (k, v) # (k', v') # m)"

definition setProperty :: "string \<Rightarrow> string \<Rightarrow> dict \<Rightarrow> dict" where
  "setProperty k v m =
     (if k = ''__proto__'' then m
      else if isArrayIndex k \<and> map_of m k = None then insertIndex k v m
      else assign k v m)"

record span =
  startTag :: string
  startTagOffset :: nat
  endTagOffset :: int
  classList :: "string list"
  style :: dict

record segment =
  text' :: string
  start :: nat
  end' :: nat
  span :: "span option"

definition styleAttrOf :: "string \<Rightarrow> string" where
  "styleAttrOf tag = (case regexExec (attrAt ''style'') tag of Some (_, g) \<Rightarrow> g | None \<Rightarrow> [])"

definition extractClasses :: "string \<Rightarrow> string list" where
  "extractClasses tag =
     (case regexExec (attrAt ''class'') tag of
        Some (_, g) \<Rightarrow> (if g \<noteq> [] then filter (\<lambda>c. c \<noteq> []) (split CHR '' '' g) else [])
      | None \<Rightarrow> [])"

definition extractStyles :: "string \<Rightarrow> dict" where
  "extractStyles tag =
     (case regexExec (attrAt ''style'') tag of
        Some (_, g) \<Rightarrow>
          (if g \<noteq> [] then
             fold (\<lambda>stylePart styles.
                     (case split CHR '':'' stylePart of
                        key # value # _ \<Rightarrow>
                          if key \<noteq> [] \<and> value \<noteq> []
                          then setProperty (trim key) (trim value) styles
                          else styles
                      | _ \<Rightarrow> styles))
                  (split CHR '';'' g) []
           else [])
      | None \<Rightarrow> [])"

lemma tagAt_bounds: "tagAt s = Some n \<Longrightarrow> 0 < n \<and> n \<le> length s"
proof -
  have run: "CHR ''>'' \<in> set t \<Longrightarrow> length (takeWhile (\<lambda>c. c \<noteq> CHR ''>'') t) < length t" for t
    by (induction t) auto
  assume a: "tagAt s = Some n"
  then obtain k where k: "CHR ''>'' \<in> set (drop k s)"
      "n = k + length (takeWhile (\<lambda>c. c \<noteq> CHR ''>'') (drop k s)) + 1"
    by (auto simp: tagAt_def Let_def split: option.splits if_splits)
  from k(1) have "k < length s" by (cases "k < length s") auto
  with run [OF k(1)] k(2) show ?thesis by simp
qed

lemma regexExec_tagAt_bounds:
  "regexExec tagAt s = Some (i, n) \<Longrightarrow> 0 < n \<and> i + n \<le> length s"
proof (induction s arbitrary: i)
  case Nil
  then show ?case by (auto split: option.splits dest: tagAt_bounds)
next
  case (Cons c cs)
  show ?case
  proof (cases "tagAt (c # cs)")
    case None
    with Cons.prems obtain j where "regexExec tagAt cs = Some (j, n)" "i = Suc j"
      by (auto split: option.splits)
    with Cons.IH show ?thesis by auto
  next
    case (Some m)
    with Cons.prems have "i = 0" "m = n" by auto
    with Some tagAt_bounds [of "c # cs" n] show ?thesis by simp
  qed
qed

text \<open>
  \<open>parseSelection\<close>: the while loop over \<open>currentIndex\<close>, with the segments pushed so far and
  the span of the last opening tag. A tag that the case-insensitive expression matched is a
  closing tag only when it starts with the lower-case \<open></span\<close>.
\<close>

definition spanOfTag :: "string \<Rightarrow> nat \<Rightarrow> span" where
  "spanOfTag tagText tagActualStart =
     \<lparr>startTag = tagText, startTagOffset = tagActualStart, endTagOffset = - 1,
      classList = extractClasses tagText, style = extractStyles tagText\<rparr>"

function parseLoop :: "string \<Rightarrow> nat \<Rightarrow> span option \<Rightarrow> segment list \<Rightarrow> segment list" where
  "parseLoop selectedText currentIndex currentSpanInfo segments =
     (let len = length selectedText in
      if currentIndex < len then
        (let remainingText = drop currentIndex selectedText in
         case regexExec tagAt remainingText of
           None \<Rightarrow>
             segments @ [\<lparr>text' = substring selectedText currentIndex len,
                          start = currentIndex, end' = len, span = currentSpanInfo\<rparr>]
         | Some (tagStart, n) \<Rightarrow>
             (let textEnd = currentIndex + tagStart;
                  segments' =
                    (if textEnd > currentIndex
                     then segments @ [\<lparr>text' = substring selectedText currentIndex textEnd,
                                       start = currentIndex, end' = textEnd,
                                       span = currentSpanInfo\<rparr>]
                     else segments);
                  tagText = take n (drop tagStart remainingText);
                  tagActualStart = currentIndex + tagStart;
                  tagActualEnd = tagActualStart + length tagText;
                  currentSpanInfo' =
                    (if startsWith tagText ''</span'' then None
                     else Some (spanOfTag tagText tagActualStart))
              in parseLoop selectedText tagActualEnd currentSpanInfo' segments'))
      else segments)"
  by pat_completeness auto
termination
  by (relation "measure (\<lambda>(s, i, c, segs). length s - i)")
     (auto dest!: regexExec_tagAt_bounds simp: min_def)

declare parseLoop.simps [simp del]

definition parseSelection :: "string \<Rightarrow> segment list" where
  "parseSelection selectedText =
     (let segments = parseLoop selectedText 0 None []
      in if segments = [] \<and> length selectedText > 0
         then segments @ [\<lparr>text' = selectedText, start = 0, end' = length selectedText,
                           span = None\<rparr>]
         else segments)"

section \<open>Style kinds, classes and variables\<close>

datatype StyleType =
  Bold | Italic | Underline | Strike | Color | Highlight | ColoredUnderline | Circled

definition CLASS_PREFIX :: string where
  "CLASS_PREFIX = ''styler-''"

definition StyleClasses_BOLD :: string where
  "StyleClasses_BOLD = ''bold''"

definition StyleClasses_ITALIC :: string where
  "StyleClasses_ITALIC = ''italic''"

definition StyleClasses_UNDERLINE :: string where
  "StyleClasses_UNDERLINE = ''underline''"

definition StyleClasses_STRIKE :: string where
  "StyleClasses_STRIKE = ''strike''"

definition StyleClasses_COLORED :: string where
  "StyleClasses_COLORED = ''colored''"

definition StyleClasses_HIGHLIGHTED :: string where
  "StyleClasses_HIGHLIGHTED = ''highlighted''"

definition StyleClasses_COLORED_UNDERLINE :: string where
  "StyleClasses_COLORED_UNDERLINE = ''colored-underline''"

definition StyleClasses_CIRCLED :: string where
  "StyleClasses_CIRCLED = ''circled''"

lemmas StyleClasses_defs =
  CLASS_PREFIX_def StyleClasses_BOLD_def StyleClasses_ITALIC_def StyleClasses_UNDERLINE_def
  StyleClasses_STRIKE_def StyleClasses_COLORED_def StyleClasses_HIGHLIGHTED_def
  StyleClasses_COLORED_UNDERLINE_def StyleClasses_CIRCLED_def

text \<open>The \<open>classMap\<close> field of the style manager: every style kind has an entry.\<close>

fun classMap :: "StyleType \<Rightarrow> string option" where
  "classMap Bold = Some StyleClasses_BOLD"
| "classMap Italic = Some StyleClasses_ITALIC"
| "classMap Underline = Some StyleClasses_UNDERLINE"
| "classMap Strike = Some StyleClasses_STRIKE"
| "classMap Circled = Some StyleClasses_CIRCLED"
| "classMap Color = Some StyleClasses_COLORED"
| "classMap Highlight = Some StyleClasses_HIGHLIGHTED"
| "classMap ColoredUnderline = Some StyleClasses_COLORED_UNDERLINE"

definition targetClassOf :: "StyleType \<Rightarrow> string option" where
  "targetClassOf styleType =
     (case classMap styleType of Some c \<Rightarrow> Some (CLASS_PREFIX @ c) | None \<Rightarrow> None)"

text \<open>
  A value is \<open>string | null\<close>. The source tests it by truthiness (\<open>&& value\<close>, \<open>if (value)\<close>):
  \<open>null\<close> and the empty string both count as no value; \<open>value === null\<close> is the strict test.
\<close>

definition truthy :: "string option \<Rightarrow> bool" where
  "truthy value = (case value of Some v \<Rightarrow> v \<noteq> [] | None \<Rightarrow> False)"

definition valueText :: "string option \<Rightarrow> string" where
  "valueText value = (case value of Some v \<Rightarrow> v | None \<Rightarrow> [])"

text \<open>
  The two thickness settings are numbers that the source only ever prints into
  \<open>`${...}px`\<close>; the record holds each as the text that interpolation prints.
\<close>

record settings =
  coloredUnderlineThickness :: string
  circleThickness :: string

definition includes' :: "string list \<Rightarrow> string \<Rightarrow> bool" where
  "includes' xs x = (x \<in> set xs)"

text \<open>\<open>obj[k]\<close> read for truthiness: a missing key and an empty value are both falsy.\<close>

definition falsyAt :: "dict \<Rightarrow> string \<Rightarrow> bool" where
  "falsyAt m k = (case map_of m k of Some v \<Rightarrow> v = [] | None \<Rightarrow> True)"

section \<open>Reading variables of a span\<close>

definition getCssVariableValue :: "span option \<Rightarrow> string \<Rightarrow> string option" where
  "getCssVariableValue spanInfo varName =
     (case spanInfo of
        None \<Rightarrow> None
      | Some sp \<Rightarrow>
          if startTag sp = [] then None
          else (case regexExec (varValueAt varName) (styleAttrOf (startTag sp)) of
                  Some (_, g) \<Rightarrow> (if g \<noteq> [] then Some (trim g) else None)
                | None \<Rightarrow> None))"

definition hasCssVariable :: "span option \<Rightarrow> string \<Rightarrow> bool" where
  "hasCssVariable spanInfo varName =
     (case spanInfo of
        None \<Rightarrow> False
      | Some sp \<Rightarrow>
          if startTag sp = [] then False else varDeclTest varName (styleAttrOf (startTag sp)))"

section \<open>Reconciling one segment\<close>

text \<open>
  \<open>applyModificationToSegment\<close> in its four parts: the variables read from the opening tag,
  the apply or remove branch, the cleanup, and the span written back. The state between the
  parts is the pair of \<open>currentClasses\<close> and \<open>currentCssVariables\<close>.
\<close>

definition readCssVariables :: "span option \<Rightarrow> dict" where
  "readCssVariables spanInfo =
     (case spanInfo of
        None \<Rightarrow> []
      | Some sp \<Rightarrow>
          if startTag sp = [] then []
          else fold (\<lambda>part vars.
                       (case split CHR '':'' part of
                          [] \<Rightarrow> vars
                        | key # rest \<Rightarrow>
                            (let trimmedKey = trim key
                             in if startsWith trimmedKey ''--styler-''
                                then assign trimmedKey
                                       (case rest of [] \<Rightarrow> [] | val # _ \<Rightarrow> trim val) vars
                                else vars)))
                    (split CHR '';'' (styleAttrOf (startTag sp))) [])"

definition applyStyle ::
  "settings \<Rightarrow> StyleType \<Rightarrow> string option \<Rightarrow> string list \<times> dict \<Rightarrow> string list \<times> dict" where
  "applyStyle cfg styleType value st =
     (let currentClasses =
            (case targetClassOf styleType of
               Some targetClass \<Rightarrow>
                 if \<not> includes' (fst st) targetClass then fst st @ [targetClass] else fst st
             | None \<Rightarrow> fst st);
          currentCssVariables = snd st
      in if styleType = Color \<and> truthy value then
           (currentClasses, assign ''--styler-text-color'' (valueText value) currentCssVariables)
         else if styleType = Highlight \<and> truthy value then
           (currentClasses,
            assign ''--styler-highlight-color'' (valueText value) currentCssVariables)
         else if styleType = ColoredUnderline \<and> truthy value then
           (filter (\<lambda>cls. cls \<noteq> CLASS_PREFIX @ StyleClasses_UNDERLINE) currentClasses,
            assign ''--styler-underline-thickness'' (coloredUnderlineThickness cfg @ ''px'')
              (assign ''--styler-underline-color'' (valueText value) currentCssVariables))
         else if styleType = Underline then
           (filter (\<lambda>cls. cls \<noteq> CLASS_PREFIX @ StyleClasses_COLORED_UNDERLINE) currentClasses,
            delete ''--styler-underline-thickness''
              (delete ''--styler-underline-color'' currentCssVariables))
         else if styleType = Circled \<and> truthy value then
           (currentClasses,
            assign ''--styler-circle-thickness'' (circleThickness cfg @ ''px'')
              (assign ''--styler-circle-color'' (valueText value) currentCssVariables))
         else (currentClasses, currentCssVariables))"

definition removeStyle :: "StyleType \<Rightarrow> string list \<times> dict \<Rightarrow> string list \<times> dict" where
  "removeStyle styleType st =
     (let currentClasses =
            (case targetClassOf styleType of
               Some targetClass \<Rightarrow> filter (\<lambda>cls. cls \<noteq> targetClass) (fst st)
             | None \<Rightarrow> fst st);
          currentCssVariables = snd st
      in if styleType = Color then
           (currentClasses, delete ''--styler-text-color'' currentCssVariables)
         else if styleType = Highlight then
           (currentClasses, delete ''--styler-highlight-color'' currentCssVariables)
         else if styleType = ColoredUnderline then
           (currentClasses,
            delete ''--styler-underline-thickness''
              (delete ''--styler-underline-color'' currentCssVariables))
         else if styleType = Underline then
           (currentClasses,
            delete ''--styler-underline-thickness''
              (delete ''--styler-underline-color'' currentCssVariables))
         else if styleType = Circled then
           (currentClasses,
            delete ''--styler-circle-thickness''
              (delete ''--styler-circle-color'' currentCssVariables))
         else (currentClasses, currentCssVariables))"

text \<open>
  The cleanup is six conditionals in a row; each is a step on the pair of classes and
  variables, in the order of the source.
\<close>

definition cleanupNoUnderlineClass :: "string list \<times> dict \<Rightarrow> string list \<times> dict" where
  "cleanupNoUnderlineClass st =
     (let hasAnyUnderlineClass =
            (includes' (fst st) (CLASS_PREFIX @ StyleClasses_UNDERLINE)
             \<or> includes' (fst st) (CLASS_PREFIX @ StyleClasses_COLORED_UNDERLINE))
      in if \<not> hasAnyUnderlineClass
         then (fst st,
               delete ''--styler-underline-thickness''
                 (delete ''--styler-underline-color'' (snd st)))
         else st)"

definition cleanupColoredVars :: "string list \<times> dict \<Rightarrow> string list \<times> dict" where
  "cleanupColoredVars st =
     (if includes' (fst st) (CLASS_PREFIX @ StyleClasses_UNDERLINE)
         \<or> \<not> includes' (fst st) (CLASS_PREFIX @ StyleClasses_COLORED_UNDERLINE)
      then (fst st,
            delete ''--styler-underline-thickness''
              (delete ''--styler-underline-color'' (snd st)))
      else st)"

definition cleanupColoredMarker :: "string list \<times> dict \<Rightarrow> string list \<times> dict" where
  "cleanupColoredMarker st =
     (if falsyAt (snd st) ''--styler-text-color''
      then (filter (\<lambda>cls. cls \<noteq> CLASS_PREFIX @ StyleClasses_COLORED) (fst st), snd st)
      else st)"

definition cleanupHighlightedMarker :: "string list \<times> dict \<Rightarrow> string list \<times> dict" where
  "cleanupHighlightedMarker st =
     (if falsyAt (snd st) ''--styler-highlight-color''
      then (filter (\<lambda>cls. cls \<noteq> CLASS_PREFIX @ StyleClasses_HIGHLIGHTED) (fst st), snd st)
      else st)"

definition cleanupColoredUnderlineMarker :: "string list \<times> dict \<Rightarrow> string list \<times> dict" where
  "cleanupColoredUnderlineMarker st =
     (if falsyAt (snd st) ''--styler-underline-color''
      then (filter (\<lambda>cls. cls \<noteq> CLASS_PREFIX @ StyleClasses_COLORED_UNDERLINE) (fst st),
            delete ''--styler-underline-thickness'' (snd st))
      else st)"

definition cleanupCircledMarker :: "string list \<times> dict \<Rightarrow> string list \<times> dict" where
  "cleanupCircledMarker st =
     (if falsyAt (snd st) ''--styler-circle-color''
      then (filter (\<lambda>cls. cls \<noteq> CLASS_PREFIX @ StyleClasses_CIRCLED) (fst st),
            delete ''--styler-circle-thickness'' (snd st))
      else st)"

definition cleanup :: "string list \<times> dict \<Rightarrow> string list \<times> dict" where
  "cleanup st =
     cleanupCircledMarker
       (cleanupColoredUnderlineMarker
          (cleanupHighlightedMarker
             (cleanupColoredMarker
                (cleanupColoredVars
                   (cleanupNoUnderlineClass st)))))"

text \<open>\<open>[...new Set(xs)]\<close>: the first occurrence of each element, in order.\<close>

fun uniq :: "'a list \<Rightarrow> 'a list" where
  "uniq [] = []"
| "uniq (x # xs) = x # uniq (filter (\<lambda>y. y \<noteq> x) xs)"

definition uniqueClassesOf :: "string list \<Rightarrow> string list" where
  "uniqueClassesOf currentClasses = filter (\<lambda>c. c \<noteq> []) (uniq currentClasses)"

definition styleAttrValueOf :: "dict \<Rightarrow> string" where
  "styleAttrValueOf currentCssVariables =
     trim (join '' '' (map (\<lambda>e. fst e @ '': '' @ snd e @ '';'') currentCssVariables))"

definition openingTagOf :: "string list \<Rightarrow> string \<Rightarrow> string" where
  "openingTagOf uniqueClasses styleAttrValue =
     ''<span''
     @ (if uniqueClasses \<noteq> []
        then '' class='' @ [CHR 0x22] @ join '' '' uniqueClasses @ [CHR 0x22] else [])
     @ (if styleAttrValue \<noteq> []
        then '' style='' @ [CHR 0x22] @ styleAttrValue @ [CHR 0x22] else [])
     @ ''>''"

definition reconstructSpan :: "string \<Rightarrow> string list \<times> dict \<Rightarrow> string" where
  "reconstructSpan txt st =
     (let styleAttrValue = styleAttrValueOf (snd st);
          uniqueClasses = uniqueClassesOf (fst st);
          hasClasses = (length uniqueClasses > 0);
          hasStyles = (length styleAttrValue > 0)
      in if hasClasses \<or> hasStyles
         then openingTagOf uniqueClasses styleAttrValue @ txt @ ''</span>''
         else txt)"

text \<open>The classes and variables a segment starts from.\<close>

definition initialState :: "span option \<Rightarrow> string list \<times> dict" where
  "initialState spanInfo =
     ((case spanInfo of Some sp \<Rightarrow> classList sp | None \<Rightarrow> []), readCssVariables spanInfo)"

text \<open>The classes and variables of a segment after the branch and the cleanup.\<close>

definition reconcile ::
  "settings \<Rightarrow> span option \<Rightarrow> StyleType \<Rightarrow> string option \<Rightarrow> bool \<Rightarrow> string list \<times> dict" where
  "reconcile cfg spanInfo styleType value shouldApply =
     cleanup (if shouldApply then applyStyle cfg styleType value (initialState spanInfo)
              else removeStyle styleType (initialState spanInfo))"

definition applyModificationToSegment ::
  "settings \<Rightarrow> string \<Rightarrow> span option \<Rightarrow> StyleType \<Rightarrow> string option \<Rightarrow> bool \<Rightarrow> string" where
  "applyModificationToSegment cfg txt spanInfo styleType value shouldApply =
     reconstructSpan txt (reconcile cfg spanInfo styleType value shouldApply)"

definition createStyledSpan ::
  "settings \<Rightarrow> string \<Rightarrow> StyleType \<Rightarrow> string option \<Rightarrow> span option \<Rightarrow> string" where
  "createStyledSpan cfg txt styleType value existingSpanInfo =
     applyModificationToSegment cfg txt None styleType value True"

subsection \<open>The style manager before circle colours\<close>

text \<open>
  The source holds three versions of the style manager: the first one, which writes CSS
  properties, an earlier one with variables, and the current one. The earlier
  \<open>applyModificationToSegment\<close> reads the variables, reconstructs the span and maps the
  classes as the current one does. It differs in the branches, where the thickness of a
  colored underline is the constant \<open>3px\<close> and circled has no variables, and in the
  cleanup, which has the first five steps only.
\<close>

definition applyStyle_earlier ::
  "StyleType \<Rightarrow> string option \<Rightarrow> string list \<times> dict \<Rightarrow> string list \<times> dict" where
  "applyStyle_earlier styleType value st =
     (let currentClasses =
            (case targetClassOf styleType of
               Some targetClass \<Rightarrow>
                 if \<not> includes' (fst st) targetClass then fst st @ [targetClass] else fst st
             | None \<Rightarrow> fst st);
          currentCssVariables = snd st
      in if styleType = Color \<and> truthy value then
           (currentClasses, assign ''--styler-text-color'' (valueText value) currentCssVariables)
         else if styleType = Highlight \<and> truthy value then
           (currentClasses,
            assign ''--styler-highlight-color'' (valueText value) currentCssVariables)
         else if styleType = ColoredUnderline \<and> truthy value then
           (filter (\<lambda>cls. cls \<noteq> CLASS_PREFIX @ StyleClasses_UNDERLINE) currentClasses,
            assign ''--styler-underline-thickness'' ''3px''
              (assign ''--styler-underline-color'' (valueText value) currentCssVariables))
         else if styleType = Underline then
           (filter (\<lambda>cls. cls \<noteq> CLASS_PREFIX @ StyleClasses_COLORED_UNDERLINE) currentClasses,
            delete ''--styler-underline-thickness''
              (delete ''--styler-underline-color'' currentCssVariables))
         else (currentClasses, currentCssVariables))"

definition removeStyle_earlier ::
  "StyleType \<Rightarrow> string list \<times> dict \<Rightarrow> string list \<times> dict" where
  "removeStyle_earlier styleType st =
     (let currentClasses =
            (case targetClassOf styleType of
               Some targetClass \<Rightarrow> filter (\<lambda>cls. cls \<noteq> targetClass) (fst st)
             | None \<Rightarrow> fst st);
          currentCssVariables = snd st
      in if styleType = Color then
           (currentClasses, delete ''--styler-text-color'' currentCssVariables)
         else if styleType = Highlight then
           (currentClasses, delete ''--styler-highlight-color'' currentCssVariables)
         else if styleType = ColoredUnderline then
           (currentClasses,
            delete ''--styler-underline-thickness''
              (delete ''--styler-underline-color'' currentCssVariables))
         else if styleType = Underline then
           (currentClasses,
            delete ''--styler-underline-thickness''
              (delete ''--styler-underline-color'' currentCssVariables))
         else (currentClasses, currentCssVariables))"

definition cleanup_earlier :: "string list \<times> dict \<Rightarrow> string list \<times> dict" where
  "cleanup_earlier st =
     cleanupColoredUnderlineMarker
       (cleanupHighlightedMarker
          (cleanupColoredMarker
             (cleanupColoredVars
                (cleanupNoUnderlineClass st))))"

definition reconcile_earlier ::
  "span option \<Rightarrow> StyleType \<Rightarrow> string option \<Rightarrow> bool \<Rightarrow> string list \<times> dict" where
  "reconcile_earlier spanInfo styleType value shouldApply =
     cleanup_earlier (if shouldApply then applyStyle_earlier styleType value (initialState spanInfo)
                      else removeStyle_earlier styleType (initialState spanInfo))"

definition applyModificationToSegment_earlier ::
  "string \<Rightarrow> span option \<Rightarrow> StyleType \<Rightarrow> string option \<Rightarrow> bool \<Rightarrow> string" where
  "applyModificationToSegment_earlier txt spanInfo styleType value shouldApply =
     reconstructSpan txt (reconcile_earlier spanInfo styleType value shouldApply)"

section \<open>Deciding the direction of a toggle\<close>

definition varChecks :: "StyleType \<Rightarrow> string option" where
  "varChecks styleType =
     (if styleType = Color then Some ''--styler-text-color''
      else if styleType = Highlight then Some ''--styler-highlight-color''
      else if styleType = ColoredUnderline then Some ''--styler-underline-color''
      else if styleType = Circled then Some ''--styler-circle-color''
      else None)"

text \<open>The body of the loop of \<open>isStyleActiveInSegments\<close> for a segment with a span.\<close>

definition spanIsActive :: "span \<Rightarrow> StyleType \<Rightarrow> string option \<Rightarrow> bool" where
  "spanIsActive sp styleType value =
     (let isClassActive =
            (case targetClassOf styleType of
               Some targetClass \<Rightarrow> includes' (classList sp) targetClass
             | None \<Rightarrow> False);
          isVarActive =
            (case varChecks styleType of
               None \<Rightarrow> False
             | Some targetVar \<Rightarrow>
                 (case getCssVariableValue (Some sp) targetVar of
                    None \<Rightarrow> False
                  | Some varValue \<Rightarrow>
                      if truthy value
                      then toLowerCase varValue = toLowerCase (valueText value)
                      else True))
      in if styleType = Bold \<or> styleType = Italic \<or> styleType = Strike then isClassActive
         else if styleType = Underline then
           (let isColoredActive =
                  (hasCssVariable (Some sp) ''--styler-underline-color''
                   \<or> includes' (classList sp) (CLASS_PREFIX @ StyleClasses_COLORED_UNDERLINE))
            in isClassActive \<and> \<not> isColoredActive)
         else if styleType = Circled then isClassActive \<or> (isVarActive \<and> value = None)
         else if styleType = Color \<or> styleType = Highlight \<or> styleType = ColoredUnderline
         then isVarActive \<or> (isClassActive \<and> value = None)
         else False)"

fun isStyleActiveInSegments :: "segment list \<Rightarrow> StyleType \<Rightarrow> string option \<Rightarrow> bool" where
  "isStyleActiveInSegments [] styleType value = False"
| "isStyleActiveInSegments (seg # segments) styleType value =
     (case span seg of
        Some sp \<Rightarrow>
          if spanIsActive sp styleType value then True
          else isStyleActiveInSegments segments styleType value
      | None \<Rightarrow> isStyleActiveInSegments segments styleType value)"

text \<open>
  The value-based check of \<open>toggleStyle\<close>: the three flags \<open>isCurrentlyActive\<close>,
  \<open>hasDifferentValue\<close> and \<open>isSameValueActive\<close>, updated segment by segment.
\<close>

definition valueBased :: "StyleType \<Rightarrow> string option \<Rightarrow> bool" where
  "valueBased styleType value =
     ((styleType = ColoredUnderline \<or> styleType = Color \<or> styleType = Highlight
       \<or> styleType = Circled) \<and> truthy value)"

definition varToCheck :: "StyleType \<Rightarrow> string" where
  "varToCheck styleType =
     (if styleType = ColoredUnderline then ''--styler-underline-color''
      else if styleType = Color then ''--styler-text-color''
      else if styleType = Highlight then ''--styler-highlight-color''
      else ''--styler-circle-color'')"

record flags =
  isCurrentlyActive :: bool
  hasDifferentValue :: bool
  isSameValueActive :: bool

definition checkSegment :: "StyleType \<Rightarrow> string \<Rightarrow> segment \<Rightarrow> flags \<Rightarrow> flags" where
  "checkSegment styleType v seg fl =
     (case getCssVariableValue (span seg) (varToCheck styleType) of
        Some currentVarValue \<Rightarrow>
          if toLowerCase currentVarValue = toLowerCase v
          then fl\<lparr>isCurrentlyActive := True, isSameValueActive := True\<rparr>
          else fl\<lparr>isCurrentlyActive := True, hasDifferentValue := True\<rparr>
      | None \<Rightarrow>
          (case (targetClassOf styleType, span seg) of
             (Some markerClass, Some sp) \<Rightarrow>
               if includes' (classList sp) markerClass
               then fl\<lparr>isCurrentlyActive := True, hasDifferentValue := True\<rparr>
               else fl
           | _ \<Rightarrow> fl))"

definition checkSegments :: "segment list \<Rightarrow> StyleType \<Rightarrow> string \<Rightarrow> flags" where
  "checkSegments segments styleType v =
     fold (checkSegment styleType v) segments
       \<lparr>isCurrentlyActive = False, hasDifferentValue = False, isSameValueActive = False\<rparr>"

definition shouldApplyFor :: "segment list \<Rightarrow> StyleType \<Rightarrow> string option \<Rightarrow> bool" where
  "shouldApplyFor segments styleType value =
     (if valueBased styleType value then
        (let fl = checkSegments segments styleType (valueText value)
         in if isSameValueActive fl \<and> \<not> hasDifferentValue fl then False else True)
      else \<not> isStyleActiveInSegments segments styleType value)"

section \<open>The public operations\<close>

text \<open>
  The editor enters as the selected text (\<open>editor.getRange(from, to)\<close>) and leaves as what
  the operation does to it: a notice and no edit, the selection replaced, or the selection
  replaced and the cursor set, at a column counted from the start of the selection.
\<close>

datatype outcome =
  SelectionRequired
| Replaced string
| ReplacedWithCursor string int

text \<open>The \<open>forEach\<close> of \<open>toggleStyle\<close>, appending each reconciled segment to \<open>modifiedContent\<close>.\<close>

fun modifySegments ::
  "settings \<Rightarrow> StyleType \<Rightarrow> string option \<Rightarrow> bool \<Rightarrow> segment list \<Rightarrow> string \<Rightarrow> string" where
  "modifySegments cfg styleType value shouldApply [] modifiedContent = modifiedContent"
| "modifySegments cfg styleType value shouldApply (segment # segments) modifiedContent =
     modifySegments cfg styleType value shouldApply segments
       (modifiedContent
        @ applyModificationToSegment cfg (text' segment) (span segment) styleType value
            shouldApply)"

definition toggleStyle :: "settings \<Rightarrow> string \<Rightarrow> StyleType \<Rightarrow> string option \<Rightarrow> outcome" where
  "toggleStyle cfg selectedText styleType value =
     (if length selectedText = 0 \<and> (styleType = Color \<or> styleType = Highlight) \<and> truthy value
      then (let styledEmptySpan = createStyledSpan cfg [] styleType value None
            in ReplacedWithCursor styledEmptySpan (indexOf styledEmptySpan CHR ''>'' + 1))
      else if length selectedText = 0 \<and> styleType \<noteq> Color \<and> styleType \<noteq> Highlight
      then SelectionRequired
      else
        (let segments = parseSelection selectedText;
             shouldApply = shouldApplyFor segments styleType value
         in Replaced (modifySegments cfg styleType value shouldApply segments [])))"

text \<open>\<open>removeAllStyling\<close> of the current style manager: the texts of the segments.\<close>

definition removeAllStyling :: "string \<Rightarrow> string" where
  "removeAllStyling originalContent =
     fold (\<lambda>segment modifiedContent. modifiedContent @ text' segment)
       (parseSelection originalContent) []"

text \<open>
  \<open>removeAllStyling\<close> of the first style manager:
  \<open>originalContent.replace(/<span[^>]*>|<\/span>/gi, '')\<close>, every match from left to right
  replaced by nothing.
\<close>

lemma spanTagAt_pos: "spanTagAt s = Some n \<Longrightarrow> 0 < n"
  by (auto simp: spanTagAt_def split: if_splits)

lemma spanTagAt_Nil: "spanTagAt [] = None"
  by (simp add: spanTagAt_def)

lemma regexExec_spanTagAt_pos: "regexExec spanTagAt s = Some (i, n) \<Longrightarrow> 0 < n \<and> s \<noteq> []"
  by (induction s arbitrary: i)
     (auto split: option.splits dest: spanTagAt_pos simp: spanTagAt_Nil)

function replaceSpanTags :: "string \<Rightarrow> string" where
  "replaceSpanTags s =
     (case regexExec spanTagAt s of
        None \<Rightarrow> s
      | Some (i, n) \<Rightarrow> take i s @ replaceSpanTags (drop (i + n) s))"
  by pat_completeness auto
termination
  by (relation "measure length") (auto dest!: regexExec_spanTagAt_pos)

declare replaceSpanTags.simps [simp del]

definition removeAllStyling_regex :: "string \<Rightarrow> string" where
  "removeAllStyling_regex originalContent = replaceSpanTags originalContent"

section \<open>Notions for the statements\<close>

text \<open>
  What discarding every wrapper of a selection asks for: the selection with every span tag
  left out, that is, every match of \<open>/<\/?span[^>]*>/gi\<close>, from left to right, replaced by
  nothing. Remove-all-styling is compared with it below.
\<close>

function withoutTags :: "string \<Rightarrow> string" where
  "withoutTags s =
     (case regexExec tagAt s of
        None \<Rightarrow> s
      | Some (i, n) \<Rightarrow> take i s @ withoutTags (drop (i + n) s))"
  by pat_completeness auto
termination
  by (relation "measure length") (auto dest!: regexExec_tagAt_bounds)

declare withoutTags.simps [simp del]

text \<open>
  What \<open>applyModificationToSegment\<close> writes for a segment: the class list
  \<open>uniqueClasses\<close>, the variables \<open>currentCssVariables\<close> after the cleanup, and the opening
  tag made of them.
\<close>

definition writtenClasses ::
  "settings \<Rightarrow> span option \<Rightarrow> StyleType \<Rightarrow> string option \<Rightarrow> bool \<Rightarrow> string list" where
  "writtenClasses cfg spanInfo styleType value shouldApply =
     uniqueClassesOf (fst (reconcile cfg spanInfo styleType value shouldApply))"

definition writtenVariables ::
  "settings \<Rightarrow> span option \<Rightarrow> StyleType \<Rightarrow> string option \<Rightarrow> bool \<Rightarrow> dict" where
  "writtenVariables cfg spanInfo styleType value shouldApply =
     snd (reconcile cfg spanInfo styleType value shouldApply)"

definition writtenTag ::
  "settings \<Rightarrow> span option \<Rightarrow> StyleType \<Rightarrow> string option \<Rightarrow> bool \<Rightarrow> string" where
  "writtenTag cfg spanInfo styleType value shouldApply =
     openingTagOf (writtenClasses cfg spanInfo styleType value shouldApply)
       (styleAttrValueOf (writtenVariables cfg spanInfo styleType value shouldApply))"

definition writtenClasses_earlier ::
  "span option \<Rightarrow> StyleType \<Rightarrow> string option \<Rightarrow> bool \<Rightarrow> string list" where
  "writtenClasses_earlier spanInfo styleType value shouldApply =
     uniqueClassesOf (fst (reconcile_earlier spanInfo styleType value shouldApply))"

definition writtenVariables_earlier ::
  "span option \<Rightarrow> StyleType \<Rightarrow> string option \<Rightarrow> bool \<Rightarrow> dict" where
  "writtenVariables_earlier spanInfo styleType value shouldApply =
     snd (reconcile_earlier spanInfo styleType value shouldApply)"

definition writtenTag_earlier ::
  "span option \<Rightarrow> StyleType \<Rightarrow> string option \<Rightarrow> bool \<Rightarrow> string" where
  "writtenTag_earlier spanInfo styleType value shouldApply =
     openingTagOf (writtenClasses_earlier spanInfo styleType value shouldApply)
       (styleAttrValueOf (writtenVariables_earlier spanInfo styleType value shouldApply))"

text \<open>
  What \<open>toggleStyle\<close> appends for one segment of the selection: the segment reconciled in
  the direction decided for the whole selection.
\<close>

definition toggledSegment ::
  "settings \<Rightarrow> segment list \<Rightarrow> StyleType \<Rightarrow> string option \<Rightarrow> segment \<Rightarrow> string" where
  "toggledSegment cfg segments styleType value segment =
     applyModificationToSegment cfg (text' segment) (span segment) styleType value
       (shouldApplyFor segments styleType value)"

text \<open>A class name as \<open>extractClasses\<close> gives it: not empty, with no space and no quote.\<close>

definition classToken :: "string \<Rightarrow> bool" where
  "classToken c = (c \<noteq> [] \<and> CHR '' '' \<notin> set c \<and> CHR 0x22 \<notin> set c)"

text \<open>
  A span as the segmenter makes it, or no span: the class list is what \<open>extractClasses\<close>
  reads from the start tag.
\<close>

definition parsedSpan :: "span option \<Rightarrow> bool" where
  "parsedSpan spanInfo =
     (case spanInfo of None \<Rightarrow> True | Some sp \<Rightarrow> classList sp = extractClasses (startTag sp))"

text \<open>A configuration for the worked examples.\<close>

definition exampleSettings :: settings where
  "exampleSettings = \<lparr>coloredUnderlineThickness = ''3'', circleThickness = ''2''\<rparr>"

text \<open>A span that carries the three colours under their marker classes.\<close>

definition exampleMarkedSpan :: span where
  \<open>exampleMarkedSpan =
     spanOfTag
       (''<span class="styler-colored styler-highlighted styler-circled" ''
        @ ''style="--styler-text-color: red; --styler-highlight-color: blue; ''
        @ ''--styler-circle-color: green;">'') 0\<close>

text \<open>A segment carries a class when it has a span whose class list holds it.\<close>

definition carries :: "segment \<Rightarrow> string \<Rightarrow> bool" where
  "carries seg c = (case span seg of Some sp \<Rightarrow> c \<in> set (classList sp) | None \<Rightarrow> False)"

text \<open>A dictionary all of whose keys start with \<open>--styler-\<close>.\<close>

definition onlyStylerKeys :: "dict \<Rightarrow> bool" where
  "onlyStylerKeys m = list_all (\<lambda>e. startsWith (fst e) ''--styler-'') m"

text \<open>
  A selection in which every closing tag that the scan of the segmenter finds is plain: each
  match of \<open>/<\/?span[^>]*>/gi\<close>, taken from left to right as \<open>parseSelection\<close> does,
  that starts with \<open></span\<close> (in any letter case) is \<open></span>\<close> itself, seven characters.
\<close>

function closingTagsFoundPlain :: "string \<Rightarrow> bool" where
  "closingTagsFoundPlain s =
     (case regexExec tagAt s of
        None \<Rightarrow> True
      | Some (i, n) \<Rightarrow>
          (startsWithCI (drop i s) ''</span'' \<longrightarrow> n = 7)
          \<and> closingTagsFoundPlain (drop (i + n) s))"
  by pat_completeness auto
termination
  by (relation "measure length") (auto dest!: regexExec_tagAt_bounds)

declare closingTagsFoundPlain.simps [simp del]

text \<open>
  A text that holds the start of a span tag somewhere: \<open><span\<close> or \<open></span\<close>, in any
  letter case.
\<close>

fun hasSpanFragment :: "string \<Rightarrow> bool" where
  "hasSpanFragment [] = False"
| "hasSpanFragment (c # cs) =
     (startsWithCI (c # cs) ''<span'' \<or> startsWithCI (c # cs) ''</span'' \<or> hasSpanFragment cs)"

text \<open>The eight class names the style manager writes.\<close>

definition recognizedClasses :: "string list" where
  "recognizedClasses =
     map (\<lambda>c. CLASS_PREFIX @ c)
       [StyleClasses_BOLD, StyleClasses_ITALIC, StyleClasses_UNDERLINE, StyleClasses_STRIKE,
        StyleClasses_COLORED, StyleClasses_HIGHLIGHTED, StyleClasses_COLORED_UNDERLINE,
        StyleClasses_CIRCLED]"

text \<open>
  The value slot of a segment against a requested value: equal up to letter case, or in
  conflict with it (another value, or no value under the kind's marker class).
\<close>

definition slotEquals :: "StyleType \<Rightarrow> string \<Rightarrow> segment \<Rightarrow> bool" where
  "slotEquals styleType v seg =
     (case getCssVariableValue (span seg) (varToCheck styleType) of
        Some x \<Rightarrow> toLowerCase x = toLowerCase v
      | None \<Rightarrow> False)"

definition slotConflicts :: "StyleType \<Rightarrow> string \<Rightarrow> segment \<Rightarrow> bool" where
  "slotConflicts styleType v seg =
     (case getCssVariableValue (span seg) (varToCheck styleType) of
        Some x \<Rightarrow> toLowerCase x \<noteq> toLowerCase v
      | None \<Rightarrow> (case targetClassOf styleType of Some c \<Rightarrow> carries seg c | None \<Rightarrow> False))"

section \<open>Case folding\<close>

text \<open>
  The regular-expression fold takes A to Z to a to z and changes nothing else. The fold of
  \<open>toLowerCase\<close> does the same to A to Z, takes each Latin-1 capital to the code 32 above it,
  and changes nothing else: the two folds differ on the Latin-1 capitals only.
\<close>

lemma toLowerChar_capitals:
  "map toLowerChar ''ABCDEFGHIJKLMNOPQRSTUVWXYZ'' = ''abcdefghijklmnopqrstuvwxyz''"
  by code_simp

lemma toLowerChar_small:
  "map toLowerChar ''abcdefghijklmnopqrstuvwxyz'' = ''abcdefghijklmnopqrstuvwxyz''"
  by code_simp

lemma toLowerChar_other:
  "\<forall>c. toLowerChar c = c \<or> c \<in> set ''ABCDEFGHIJKLMNOPQRSTUVWXYZ''"
  by code_simp

lemma toLowerCase_capitals:
  "toLowerCase ''ABCDEFGHIJKLMNOPQRSTUVWXYZ'' = ''abcdefghijklmnopqrstuvwxyz''"
  by code_simp

lemma toLowerCase_latin1_capitals:
  "toLowerCase
     [CHR 0xC0, CHR 0xC1, CHR 0xC2, CHR 0xC3, CHR 0xC4, CHR 0xC5, CHR 0xC6, CHR 0xC7,
      CHR 0xC8, CHR 0xC9, CHR 0xCA, CHR 0xCB, CHR 0xCC, CHR 0xCD, CHR 0xCE, CHR 0xCF,
      CHR 0xD0, CHR 0xD1, CHR 0xD2, CHR 0xD3, CHR 0xD4, CHR 0xD5, CHR 0xD6,
      CHR 0xD8, CHR 0xD9, CHR 0xDA, CHR 0xDB, CHR 0xDC, CHR 0xDD, CHR 0xDE]
   = [CHR 0xE0, CHR 0xE1, CHR 0xE2, CHR 0xE3, CHR 0xE4, CHR 0xE5, CHR 0xE6, CHR 0xE7,
      CHR 0xE8, CHR 0xE9, CHR 0xEA, CHR 0xEB, CHR 0xEC, CHR 0xED, CHR 0xEE, CHR 0xEF,
      CHR 0xF0, CHR 0xF1, CHR 0xF2, CHR 0xF3, CHR 0xF4, CHR 0xF5, CHR 0xF6,
      CHR 0xF8, CHR 0xF9, CHR 0xFA, CHR 0xFB, CHR 0xFC, CHR 0xFD, CHR 0xFE]"
  by code_simp

lemma toLowerCaseUnit_other:
  "\<forall>c. toLowerCaseUnit c = c \<or> c \<in> set ''ABCDEFGHIJKLMNOPQRSTUVWXYZ''
        \<or> c \<in> set [CHR 0xC0, CHR 0xC1, CHR 0xC2, CHR 0xC3, CHR 0xC4, CHR 0xC5, CHR 0xC6,
                      CHR 0xC7, CHR 0xC8, CHR 0xC9, CHR 0xCA, CHR 0xCB, CHR 0xCC, CHR 0xCD,
                      CHR 0xCE, CHR 0xCF, CHR 0xD0, CHR 0xD1, CHR 0xD2, CHR 0xD3, CHR 0xD4,
                      CHR 0xD5, CHR 0xD6, CHR 0xD8, CHR 0xD9, CHR 0xDA, CHR 0xDB, CHR 0xDC,
                      CHR 0xDD, CHR 0xDE]"
  by code_simp

section \<open>The direction of a toggle for the class-only kinds\<close>

lemma isStyleActive_boolean:
  assumes "styleType = Bold \<or> styleType = Italic \<or> styleType = Strike"
    and "targetClassOf styleType = Some c"
  shows "isStyleActiveInSegments segments styleType v = (\<exists>seg\<in>set segments. carries seg c)"
  using assms
  by (induction segments)
     (auto simp: spanIsActive_def includes'_def carries_def split: option.splits)

lemma isStyleActive_any:
  "isStyleActiveInSegments segments styleType v
     = (\<exists>seg\<in>set segments. case span seg of Some sp \<Rightarrow> spanIsActive sp styleType v
                                           | None \<Rightarrow> False)"
  by (induction segments) (auto split: option.splits)

text \<open>
  Claim C1, as the code has it. For every request that is not a value-bearing kind with a
  value, the decision is \<open>shouldApply = \<not> (some segment of the selection has a span that
  is active for the kind)\<close>, by the test of \<open>isStyleActiveInSegments\<close> on that span alone.
  For bold, italic and strikethrough the test is that the span carries the class: one styled
  segment is enough to make the toggle a removal, whatever the other segments carry. The
  claim's reading, that every text-bearing run must carry the class, fails on the selection
  of \<open>C1_counterexample\<close>.
\<close>

theorem C1_boolean_decision:
  "(\<not> valueBased styleType v
      \<longrightarrow> shouldApplyFor segments styleType v
          = (\<not> (\<exists>seg\<in>set segments. case span seg of
                                          Some sp \<Rightarrow> spanIsActive sp styleType v
                                        | None \<Rightarrow> False)))
   \<and> ((styleType = Bold \<or> styleType = Italic \<or> styleType = Strike)
       \<and> targetClassOf styleType = Some c
      \<longrightarrow> shouldApplyFor segments styleType v = (\<not> (\<exists>seg\<in>set segments. carries seg c)))"
proof (intro conjI impI)
  assume "\<not> valueBased styleType v"
  then show "shouldApplyFor segments styleType v
          = (\<not> (\<exists>seg\<in>set segments. case span seg of
                                          Some sp \<Rightarrow> spanIsActive sp styleType v
                                        | None \<Rightarrow> False))"
    by (simp add: shouldApplyFor_def isStyleActive_any)
next
  assume a: "(styleType = Bold \<or> styleType = Italic \<or> styleType = Strike)
             \<and> targetClassOf styleType = Some c"
  then have "\<not> valueBased styleType v"
    by (auto simp: valueBased_def)
  with a isStyleActive_boolean [of styleType c segments v]
  show "shouldApplyFor segments styleType v = (\<not> (\<exists>seg\<in>set segments. carries seg c))"
    by (simp add: shouldApplyFor_def)
qed

theorem C1_counterexample:
  \<open>map text' (parseSelection ''A<span class="styler-bold">B</span>'') = [''A'', ''B'']
   \<and> map (\<lambda>seg. carries seg ''styler-bold'')
         (parseSelection ''A<span class="styler-bold">B</span>'') = [False, True]
   \<and> shouldApplyFor (parseSelection ''A<span class="styler-bold">B</span>'') Bold None = False
   \<and> toggleStyle exampleSettings ''A<span class="styler-bold">B</span>'' Bold None
       = Replaced ''AB''\<close>
  by code_simp

theorem C1_witness:
  \<open>\<not> valueBased Bold None
   \<and> targetClassOf Bold = Some ''styler-bold''
   \<and> (\<exists>seg\<in>set (parseSelection ''A<span class="styler-bold">B</span>'').
         case span seg of Some sp \<Rightarrow> spanIsActive sp Bold None | None \<Rightarrow> False)
   \<and> (\<exists>seg\<in>set (parseSelection ''A<span class="styler-bold">B</span>'').
         carries seg ''styler-bold'')
   \<and> shouldApplyFor (parseSelection ''A<span class="styler-bold">B</span>'') Bold None = False\<close>
proof -
  have nv: "\<not> valueBased Bold None"
    by (simp add: valueBased_def)
  have cls: "targetClassOf Bold = Some ''styler-bold''"
    by (simp add: targetClassOf_def StyleClasses_defs)
  have active: \<open>\<exists>seg\<in>set (parseSelection ''A<span class="styler-bold">B</span>'').
                 case span seg of Some sp \<Rightarrow> spanIsActive sp Bold None | None \<Rightarrow> False\<close>
    by code_simp
  have some: \<open>\<exists>seg\<in>set (parseSelection ''A<span class="styler-bold">B</span>'').
               carries seg ''styler-bold''\<close>
    by code_simp
  show ?thesis
    using C1_boolean_decision
      [of Bold None \<open>parseSelection ''A<span class="styler-bold">B</span>''\<close> "''styler-bold''"]
      nv cls active some
    by simp
qed

section \<open>Replacing a value and removing it\<close>

text \<open>
  Claim C7. On the selection \<open><span style="--styler-text-color: #ff0000;">X</span>\<close>,
  text colour \<open>#ff0000\<close> gives exactly \<open>X\<close>, and text colour \<open>#00ff00\<close> gives a wrapper
  around \<open>X\<close> whose text-colour declaration is \<open>#00ff00\<close>, for every configuration.
\<close>

theorem C7_replace_or_remove:
  \<open>toggleStyle cfg ''<span style="--styler-text-color: #ff0000;">X</span>'' Color
       (Some ''#ff0000'')
     = Replaced ''X''
   \<and> toggleStyle cfg ''<span style="--styler-text-color: #ff0000;">X</span>'' Color
       (Some ''#00ff00'')
     = Replaced ''<span class="styler-colored" style="--styler-text-color: #00ff00;">X</span>''\<close>
  by code_simp

section \<open>The direction of a toggle for the value-bearing kinds\<close>

lemma checkSegment_same:
  "isSameValueActive (checkSegment styleType v seg fl)
     = (isSameValueActive fl \<or> slotEquals styleType v seg)"
  by (auto simp: checkSegment_def slotEquals_def split: option.splits)

lemma checkSegment_different:
  "hasDifferentValue (checkSegment styleType v seg fl)
     = (hasDifferentValue fl \<or> slotConflicts styleType v seg)"
  by (auto simp: checkSegment_def slotConflicts_def carries_def includes'_def
      split: option.splits)

lemma fold_checkSegment_same:
  "isSameValueActive (fold (checkSegment styleType v) segments fl)
     = (isSameValueActive fl \<or> (\<exists>seg\<in>set segments. slotEquals styleType v seg))"
  by (induction segments arbitrary: fl) (auto simp: checkSegment_same)

lemma fold_checkSegment_different:
  "hasDifferentValue (fold (checkSegment styleType v) segments fl)
     = (hasDifferentValue fl \<or> (\<exists>seg\<in>set segments. slotConflicts styleType v seg))"
  by (induction segments arbitrary: fl) (auto simp: checkSegment_different)

text \<open>
  Claim C2, as the code has it. For a value-bearing kind requested with a value, the decision
  is to remove exactly when some segment's value slot equals the requested value (letter
  case ignored) and no segment conflicts, where a segment conflicts when its slot holds
  another value, or its slot is empty while its span carries the kind's marker class. A
  segment with an empty slot and no marker, plain text included, does not count: the claim's
  reading, that every text-bearing run must hold the value, fails on the selection of
  \<open>C2_counterexample\<close>.
\<close>

theorem C2_value_decision:
  assumes "valueBased styleType v"
  shows "shouldApplyFor segments styleType v
         = (\<not> ((\<exists>seg\<in>set segments. slotEquals styleType (valueText v) seg)
               \<and> (\<forall>seg\<in>set segments. \<not> slotConflicts styleType (valueText v) seg)))"
  using assms
  by (simp add: shouldApplyFor_def checkSegments_def Let_def fold_checkSegment_same
      fold_checkSegment_different)

theorem C2_counterexample:
  \<open>map text' (parseSelection ''A<span style="--styler-text-color: #ff0000;">X</span>'')
     = [''A'', ''X'']
   \<and> map (\<lambda>seg. getCssVariableValue (span seg) ''--styler-text-color'')
         (parseSelection ''A<span style="--styler-text-color: #ff0000;">X</span>'')
     = [None, Some ''#ff0000'']
   \<and> shouldApplyFor (parseSelection ''A<span style="--styler-text-color: #ff0000;">X</span>'')
        Color (Some ''#ff0000'') = False
   \<and> toggleStyle exampleSettings ''A<span style="--styler-text-color: #ff0000;">X</span>''
        Color (Some ''#ff0000'') = Replaced ''AX''\<close>
  by code_simp

theorem C2_witness:
  \<open>valueBased Color (Some ''#FF0000'')
   \<and> shouldApplyFor (parseSelection ''A<span style="--styler-text-color: #ff0000;">X</span>'')
        Color (Some ''#FF0000'') = False\<close>
proof -
  have vb: "valueBased Color (Some ''#FF0000'')"
    by (simp add: valueBased_def truthy_def)
  have same: \<open>\<exists>seg\<in>set (parseSelection ''A<span style="--styler-text-color: #ff0000;">X</span>'').
               slotEquals Color (valueText (Some ''#FF0000'')) seg\<close>
    by code_simp
  have none: \<open>\<forall>seg\<in>set (parseSelection ''A<span style="--styler-text-color: #ff0000;">X</span>'').
               \<not> slotConflicts Color (valueText (Some ''#FF0000'')) seg\<close>
    by code_simp
  show ?thesis
    using C2_value_decision [OF vb] vb same none by simp
qed

text \<open>
  The comparison is that of \<open>toLowerCase\<close>, which also folds the capitals of Latin-1: a slot
  that holds the code E9 is equal to the requested value of code C9, and the toggle removes.
\<close>

lemma value_comparison_latin1:
  \<open>shouldApplyFor
     (parseSelection (''<span style="--styler-text-color: '' @ [CHR 0xE9] @ '';">X</span>''))
     Color (Some [CHR 0xC9]) = False
   \<and> toggleStyle cfg (''<span style="--styler-text-color: '' @ [CHR 0xE9] @ '';">X</span>'')
       Color (Some [CHR 0xC9]) = Replaced ''X''\<close>
  by code_simp

section \<open>Dictionaries and the cleanup\<close>

lemma map_of_delete: "map_of (delete k m) k' = (if k' = k then None else map_of m k')"
  by (induction m) (auto simp: delete_def)

lemma map_of_assign: "map_of (assign k v m) k' = (if k' = k then Some v else map_of m k')"
  by (induction m) auto

lemma keys_delete: "fst ` set (delete k m) = fst ` set m - {k}"
  by (auto simp: delete_def)

lemma falsyAt_delete:
  "falsyAt (delete k m) k' = (if k' = k then True else falsyAt m k')"
  by (simp add: falsyAt_def map_of_delete)

lemma set_uniq: "set (uniq xs) = set xs"
  by (induction xs rule: uniq.induct) auto

lemma set_uniqueClassesOf: "set (uniqueClassesOf cs) = set cs - {[]}"
  by (auto simp: uniqueClassesOf_def set_uniq)

lemma class_names:
  "CLASS_PREFIX @ StyleClasses_BOLD = ''styler-bold''"
  "CLASS_PREFIX @ StyleClasses_ITALIC = ''styler-italic''"
  "CLASS_PREFIX @ StyleClasses_UNDERLINE = ''styler-underline''"
  "CLASS_PREFIX @ StyleClasses_STRIKE = ''styler-strike''"
  "CLASS_PREFIX @ StyleClasses_COLORED = ''styler-colored''"
  "CLASS_PREFIX @ StyleClasses_HIGHLIGHTED = ''styler-highlighted''"
  "CLASS_PREFIX @ StyleClasses_COLORED_UNDERLINE = ''styler-colored-underline''"
  "CLASS_PREFIX @ StyleClasses_CIRCLED = ''styler-circled''"
  by (simp_all add: StyleClasses_defs)

lemmas cleanup_steps =
  cleanupNoUnderlineClass_def cleanupColoredVars_def cleanupColoredMarker_def
  cleanupHighlightedMarker_def cleanupColoredUnderlineMarker_def cleanupCircledMarker_def

text \<open>No step adds a class or a variable.\<close>

lemma cleanup_step_classes:
  "c \<in> set (fst (cleanupNoUnderlineClass st)) \<Longrightarrow> c \<in> set (fst st)"
  "c \<in> set (fst (cleanupColoredVars st)) \<Longrightarrow> c \<in> set (fst st)"
  "c \<in> set (fst (cleanupColoredMarker st)) \<Longrightarrow> c \<in> set (fst st)"
  "c \<in> set (fst (cleanupHighlightedMarker st)) \<Longrightarrow> c \<in> set (fst st)"
  "c \<in> set (fst (cleanupColoredUnderlineMarker st)) \<Longrightarrow> c \<in> set (fst st)"
  "c \<in> set (fst (cleanupCircledMarker st)) \<Longrightarrow> c \<in> set (fst st)"
  by (simp_all add: cleanup_steps Let_def split: if_splits)

lemma cleanup_classes_subset: "c \<in> set (fst (cleanup st)) \<Longrightarrow> c \<in> set (fst st)"
  unfolding cleanup_def
  apply (drule cleanup_step_classes(6))
  apply (drule cleanup_step_classes(5))
  apply (drule cleanup_step_classes(4))
  apply (drule cleanup_step_classes(3))
  apply (drule cleanup_step_classes(2))
  apply (erule cleanup_step_classes(1))
  done

lemma cleanup_step_keys:
  "k \<in> fst ` set (snd (cleanupNoUnderlineClass st)) \<Longrightarrow> k \<in> fst ` set (snd st)"
  "k \<in> fst ` set (snd (cleanupColoredVars st)) \<Longrightarrow> k \<in> fst ` set (snd st)"
  "k \<in> fst ` set (snd (cleanupColoredMarker st)) \<Longrightarrow> k \<in> fst ` set (snd st)"
  "k \<in> fst ` set (snd (cleanupHighlightedMarker st)) \<Longrightarrow> k \<in> fst ` set (snd st)"
  "k \<in> fst ` set (snd (cleanupColoredUnderlineMarker st)) \<Longrightarrow> k \<in> fst ` set (snd st)"
  "k \<in> fst ` set (snd (cleanupCircledMarker st)) \<Longrightarrow> k \<in> fst ` set (snd st)"
  by (simp_all add: cleanup_steps Let_def keys_delete split: if_splits)

text \<open>
  A step deletes only underline and thickness variables, so the text, highlight and circle
  colours read the same after every step.
\<close>

lemma cleanup_step_falsyAt:
  assumes "k \<noteq> ''--styler-underline-color''" "k \<noteq> ''--styler-underline-thickness''"
    "k \<noteq> ''--styler-circle-thickness''"
  shows "falsyAt (snd (cleanupNoUnderlineClass st)) k = falsyAt (snd st) k"
    "falsyAt (snd (cleanupColoredVars st)) k = falsyAt (snd st) k"
    "falsyAt (snd (cleanupColoredMarker st)) k = falsyAt (snd st) k"
    "falsyAt (snd (cleanupHighlightedMarker st)) k = falsyAt (snd st) k"
    "falsyAt (snd (cleanupColoredUnderlineMarker st)) k = falsyAt (snd st) k"
    "falsyAt (snd (cleanupCircledMarker st)) k = falsyAt (snd st) k"
  using assms by (simp_all add: cleanup_steps Let_def falsyAt_delete)

lemma cleanup_falsyAt_kept:
  assumes "k \<noteq> ''--styler-underline-color''" "k \<noteq> ''--styler-underline-thickness''"
    "k \<noteq> ''--styler-circle-thickness''"
  shows "falsyAt (snd (cleanup st)) k = falsyAt (snd st) k"
  by (simp add: cleanup_def cleanup_step_falsyAt [OF assms])

text \<open>A marker class that is still there after its step had a truthy variable before it.\<close>

lemma cleanup_colored:
  assumes "''styler-colored'' \<in> set (fst (cleanup st))"
  shows "\<not> falsyAt (snd (cleanup st)) ''--styler-text-color''"
proof -
  define s2 where "s2 = cleanupColoredVars (cleanupNoUnderlineClass st)"
  define s3 where "s3 = cleanupColoredMarker s2"
  have c: "cleanup st
           = cleanupCircledMarker (cleanupColoredUnderlineMarker (cleanupHighlightedMarker s3))"
    by (simp add: cleanup_def s3_def s2_def)
  have "x \<in> set (fst (cleanup st)) \<Longrightarrow> x \<in> set (fst s3)" for x
    unfolding c
    apply (drule cleanup_step_classes(6))
    apply (drule cleanup_step_classes(5))
    apply (erule cleanup_step_classes(4))
    done
  from this [OF assms] have "''styler-colored'' \<in> set (fst s3)" .
  then have "\<not> falsyAt (snd s2) ''--styler-text-color''"
    by (auto simp: s3_def cleanupColoredMarker_def class_names split: if_splits)
  moreover have "falsyAt (snd s2) ''--styler-text-color'' = falsyAt (snd st) ''--styler-text-color''"
    by (simp add: s2_def cleanup_step_falsyAt)
  ultimately show ?thesis by (simp add: cleanup_falsyAt_kept)
qed

lemma cleanup_highlighted:
  assumes "''styler-highlighted'' \<in> set (fst (cleanup st))"
  shows "\<not> falsyAt (snd (cleanup st)) ''--styler-highlight-color''"
proof -
  define s3 where "s3 = cleanupColoredMarker (cleanupColoredVars (cleanupNoUnderlineClass st))"
  define s4 where "s4 = cleanupHighlightedMarker s3"
  have c: "cleanup st = cleanupCircledMarker (cleanupColoredUnderlineMarker s4)"
    by (simp add: cleanup_def s4_def s3_def)
  have "x \<in> set (fst (cleanup st)) \<Longrightarrow> x \<in> set (fst s4)" for x
    unfolding c
    apply (drule cleanup_step_classes(6))
    apply (erule cleanup_step_classes(5))
    done
  from this [OF assms] have "''styler-highlighted'' \<in> set (fst s4)" .
  then have "\<not> falsyAt (snd s3) ''--styler-highlight-color''"
    by (auto simp: s4_def cleanupHighlightedMarker_def class_names split: if_splits)
  moreover have "falsyAt (snd s3) ''--styler-highlight-color''
                 = falsyAt (snd st) ''--styler-highlight-color''"
    by (simp add: s3_def cleanup_step_falsyAt)
  ultimately show ?thesis by (simp add: cleanup_falsyAt_kept)
qed

lemma cleanup_circled:
  assumes "''styler-circled'' \<in> set (fst (cleanup st))"
  shows "\<not> falsyAt (snd (cleanup st)) ''--styler-circle-color''"
proof -
  define s5 where "s5 = cleanupColoredUnderlineMarker (cleanupHighlightedMarker
                          (cleanupColoredMarker (cleanupColoredVars (cleanupNoUnderlineClass st))))"
  have c: "cleanup st = cleanupCircledMarker s5"
    by (simp add: cleanup_def s5_def)
  from assms have "\<not> falsyAt (snd s5) ''--styler-circle-color''"
    by (auto simp: c cleanupCircledMarker_def class_names split: if_splits)
  moreover have "falsyAt (snd s5) ''--styler-circle-color''
                 = falsyAt (snd st) ''--styler-circle-color''"
    by (simp add: s5_def cleanup_step_falsyAt)
  ultimately show ?thesis by (simp add: cleanup_falsyAt_kept)
qed

text \<open>
  The underline colour is read the same by the last two steps, and the colored-underline
  class survives its step exactly when that colour is truthy there.
\<close>

lemma cleanup_colored_underline:
  assumes "''styler-colored-underline'' \<in> set (fst (cleanup st))"
  shows "\<not> falsyAt (snd (cleanup st)) ''--styler-underline-color''"
proof -
  define s4 where "s4 = cleanupHighlightedMarker
                          (cleanupColoredMarker (cleanupColoredVars (cleanupNoUnderlineClass st)))"
  define s5 where "s5 = cleanupColoredUnderlineMarker s4"
  have c: "cleanup st = cleanupCircledMarker s5"
    by (simp add: cleanup_def s5_def s4_def)
  from assms have "''styler-colored-underline'' \<in> set (fst s5)"
    unfolding c by (rule cleanup_step_classes(6))
  then have "\<not> falsyAt (snd s4) ''--styler-underline-color''"
    by (auto simp: s5_def cleanupColoredUnderlineMarker_def class_names split: if_splits)
  then have "\<not> falsyAt (snd s5) ''--styler-underline-color''"
    by (simp add: s5_def cleanupColoredUnderlineMarker_def)
  then show ?thesis
    by (simp add: c cleanupCircledMarker_def falsyAt_delete)
qed

lemma cleanup_underline:
  assumes "''styler-underline'' \<in> set (fst (cleanup st))"
  shows "''styler-colored-underline'' \<notin> set (fst (cleanup st))
         \<and> map_of (snd (cleanup st)) ''--styler-underline-color'' = None
         \<and> map_of (snd (cleanup st)) ''--styler-underline-thickness'' = None"
proof -
  define s1 where "s1 = cleanupNoUnderlineClass st"
  define s2 where "s2 = cleanupColoredVars s1"
  from assms have "''styler-underline'' \<in> set (fst st)"
    by (rule cleanup_classes_subset)
  then have u: "includes' (fst s1) ''styler-underline''"
    by (simp add: s1_def includes'_def cleanupNoUnderlineClass_def Let_def)
  have gone: "''--styler-underline-color'' \<notin> fst ` set (snd s2)"
       "''--styler-underline-thickness'' \<notin> fst ` set (snd s2)"
    using u by (simp_all add: s2_def cleanupColoredVars_def class_names keys_delete)
  have c: "cleanup st = cleanupCircledMarker (cleanupColoredUnderlineMarker
             (cleanupHighlightedMarker (cleanupColoredMarker s2)))"
    by (simp add: cleanup_def s2_def s1_def)
  have sub: "k \<in> fst ` set (snd (cleanup st)) \<Longrightarrow> k \<in> fst ` set (snd s2)" for k
    unfolding c
    apply (drule cleanup_step_keys(6))
    apply (drule cleanup_step_keys(5))
    apply (drule cleanup_step_keys(4))
    apply (erule cleanup_step_keys(3))
    done
  with gone have none:
    "map_of (snd (cleanup st)) ''--styler-underline-color'' = None"
    "map_of (snd (cleanup st)) ''--styler-underline-thickness'' = None"
    by (auto simp: map_of_eq_None_iff)
  then have "falsyAt (snd (cleanup st)) ''--styler-underline-color''"
    by (simp add: falsyAt_def)
  with cleanup_colored_underline [of st] none show ?thesis by blast
qed

text \<open>The cleanup removes marker classes only.\<close>

lemma cleanup_keeps_class:
  assumes "c \<in> set (fst st)"
    and "c \<noteq> ''styler-colored''"
    and "c \<noteq> ''styler-highlighted''"
    and "c \<noteq> ''styler-colored-underline''"
    and "c \<noteq> ''styler-circled''"
  shows "c \<in> set (fst (cleanup st))"
proof -
  have step:
    "c \<in> set (fst x) \<Longrightarrow> c \<in> set (fst (cleanupNoUnderlineClass x))"
    "c \<in> set (fst x) \<Longrightarrow> c \<in> set (fst (cleanupColoredVars x))"
    "c \<in> set (fst x) \<Longrightarrow> c \<in> set (fst (cleanupColoredMarker x))"
    "c \<in> set (fst x) \<Longrightarrow> c \<in> set (fst (cleanupHighlightedMarker x))"
    "c \<in> set (fst x) \<Longrightarrow> c \<in> set (fst (cleanupColoredUnderlineMarker x))"
    "c \<in> set (fst x) \<Longrightarrow> c \<in> set (fst (cleanupCircledMarker x))" for x
    using assms(2-5) by (simp_all add: cleanup_steps Let_def class_names)
  show ?thesis
    unfolding cleanup_def by (intro step assms(1))
qed

section \<open>Plain and colored underline\<close>

lemma cleanup_marker_snd:
  "snd (cleanupColoredMarker st) = snd st"
  "snd (cleanupHighlightedMarker st) = snd st"
  by (simp_all add: cleanupColoredMarker_def cleanupHighlightedMarker_def)

lemma cleanup_marker_other_class:
  "c \<noteq> ''styler-colored'' \<Longrightarrow> (c \<in> set (fst (cleanupColoredMarker st))) = (c \<in> set (fst st))"
  "c \<noteq> ''styler-highlighted''
     \<Longrightarrow> (c \<in> set (fst (cleanupHighlightedMarker st))) = (c \<in> set (fst st))"
  by (simp_all add: cleanupColoredMarker_def cleanupHighlightedMarker_def class_names)

lemma cleanup_underline_color_marked:
  assumes "\<not> falsyAt (snd (cleanup st)) ''--styler-underline-color''"
  shows "''styler-colored-underline'' \<in> set (fst (cleanup st))"
proof -
  define s1 where "s1 = cleanupNoUnderlineClass st"
  define s2 where "s2 = cleanupColoredVars s1"
  define s4 where "s4 = cleanupHighlightedMarker (cleanupColoredMarker s2)"
  define s5 where "s5 = cleanupColoredUnderlineMarker s4"
  have c: "cleanup st = cleanupCircledMarker s5"
    by (simp add: cleanup_def s5_def s4_def s2_def s1_def)
  from assms have f5: "\<not> falsyAt (snd s5) ''--styler-underline-color''"
    by (simp add: c cleanupCircledMarker_def falsyAt_delete split: if_splits)
  then have f4: "\<not> falsyAt (snd s4) ''--styler-underline-color''"
    by (simp add: s5_def cleanupColoredUnderlineMarker_def falsyAt_delete split: if_splits)
  then have f2: "\<not> falsyAt (snd s2) ''--styler-underline-color''"
    by (simp add: s4_def cleanup_marker_snd)
  then have "''styler-colored-underline'' \<in> set (fst s1)"
    by (simp add: s2_def cleanupColoredVars_def falsyAt_delete includes'_def class_names
        split: if_splits)
  then have "''styler-colored-underline'' \<in> set (fst s2)"
    by (simp add: s2_def cleanupColoredVars_def)
  then have "''styler-colored-underline'' \<in> set (fst s4)"
    by (simp add: s4_def cleanup_marker_other_class)
  with f4 have "''styler-colored-underline'' \<in> set (fst s5)"
    by (simp add: s5_def cleanupColoredUnderlineMarker_def)
  then show ?thesis
    by (simp add: c cleanupCircledMarker_def class_names)
qed

lemma targetClassOf_simps:
  "targetClassOf Bold = Some ''styler-bold''"
  "targetClassOf Italic = Some ''styler-italic''"
  "targetClassOf Underline = Some ''styler-underline''"
  "targetClassOf Strike = Some ''styler-strike''"
  "targetClassOf Color = Some ''styler-colored''"
  "targetClassOf Highlight = Some ''styler-highlighted''"
  "targetClassOf ColoredUnderline = Some ''styler-colored-underline''"
  "targetClassOf Circled = Some ''styler-circled''"
  by (simp_all add: targetClassOf_def StyleClasses_defs)

lemma reconcile_eq:
  "reconcile cfg spanInfo styleType v shouldApply
     = cleanup (if shouldApply then applyStyle cfg styleType v (initialState spanInfo)
                else removeStyle styleType (initialState spanInfo))"
  by (simp add: reconcile_def)

lemma applyStyle_keeps_class:
  assumes "c \<in> set (fst st)" "c \<noteq> ''styler-underline''" "c \<noteq> ''styler-colored-underline''"
  shows "c \<in> set (fst (applyStyle cfg styleType v st))"
  using assms
  by (cases styleType) (simp_all add: applyStyle_def targetClassOf_simps class_names Let_def)

lemma removeStyle_keeps_class:
  assumes "c \<in> set (fst st)" "targetClassOf styleType \<noteq> Some c"
  shows "c \<in> set (fst (removeStyle styleType st))"
  using assms
  by (cases styleType) (simp_all add: removeStyle_def targetClassOf_simps Let_def)

lemma applyStyle_colored_underline:
  "truthy v \<Longrightarrow> ''styler-underline'' \<notin> set (fst (applyStyle cfg ColoredUnderline v st))"
  by (simp add: applyStyle_def targetClassOf_simps class_names Let_def)

lemma applyStyle_underline:
  "''styler-underline'' \<in> set (fst (applyStyle cfg Underline v st))"
  by (simp add: applyStyle_def targetClassOf_simps class_names Let_def includes'_def)

section \<open>The wrapper written for a segment\<close>

text \<open>
  What a regular expression finds lies where it says, and the pieces of a split hold no
  separator: a class name read from a tag is a class token, and a class attribute written
  from class tokens reads back as the same list.
\<close>

lemma takeWhile_not_mem:
  "a \<notin> set xs \<Longrightarrow> takeWhile (\<lambda>c. c \<noteq> a) (xs @ ys) = xs @ takeWhile (\<lambda>c. c \<noteq> a) ys"
  by (induction xs) auto

lemma regexExec_head: "m s = Some r \<Longrightarrow> regexExec m s = Some (0, r)"
  by (cases s) simp_all

lemma regexExec_Some:
  "regexExec m s = Some (i, r) \<Longrightarrow> i \<le> length s \<and> m (drop i s) = Some r"
proof (induction s arbitrary: i)
  case Nil
  then show ?case by (auto split: option.splits)
next
  case (Cons c cs)
  show ?case
  proof (cases "m (c # cs)")
    case None
    with Cons.prems obtain j where "regexExec m cs = Some (j, r)" "i = Suc j"
      by (auto split: option.splits)
    with Cons.IH show ?thesis by auto
  next
    case (Some x)
    with Cons.prems show ?thesis by auto
  qed
qed

lemma attrAt_quote_free: "attrAt name s = Some g \<Longrightarrow> CHR 0x22 \<notin> set g"
  by (auto simp: attrAt_def Let_def split: if_splits dest: set_takeWhileD)

lemma split_nonempty: "split d s \<noteq> []"
  by (induction s) (auto split: list.splits)

lemma split_pieces: "p \<in> set (split d s) \<Longrightarrow> d \<notin> set p \<and> set p \<subseteq> set s"
proof (induction s arbitrary: p)
  case Nil
  then show ?case by simp
next
  case (Cons c cs)
  show ?case
  proof (cases "c = d")
    case True
    with Cons show ?thesis by auto
  next
    case False
    obtain r rs where r: "split d cs = r # rs"
      using split_nonempty [of d cs] by (cases "split d cs") auto
    with False Cons.prems have "p = c # r \<or> p \<in> set rs" by simp
    then show ?thesis
    proof
      assume "p = c # r"
      with Cons.IH [of r] r False show ?thesis by auto
    next
      assume "p \<in> set rs"
      with Cons.IH [of p] r show ?thesis by auto
    qed
  qed
qed

lemma extractClasses_tokens: "c \<in> set (extractClasses tag) \<Longrightarrow> classToken c"
proof (cases "regexExec (attrAt ''class'') tag")
  case None
  assume "c \<in> set (extractClasses tag)"
  with None show ?thesis by (simp add: extractClasses_def)
next
  case (Some m)
  obtain i g where m: "m = (i, g)" by (cases m)
  assume "c \<in> set (extractClasses tag)"
  with Some m have c: "c \<in> set (split CHR '' '' g)" "c \<noteq> []"
    by (auto simp: extractClasses_def split: if_splits)
  from regexExec_Some [of "attrAt ''class''" tag i g] Some m have "CHR 0x22 \<notin> set g"
    by (auto dest: attrAt_quote_free)
  with split_pieces [OF c(1)] c(2) show ?thesis
    by (auto simp: classToken_def)
qed

lemma split_none: "d \<notin> set x \<Longrightarrow> split d x = [x]"
  by (induction x) auto

lemma split_append: "d \<notin> set x \<Longrightarrow> split d (x @ d # rest) = x # split d rest"
  by (induction x) auto

lemma split_join:
  "cs \<noteq> [] \<Longrightarrow> \<forall>c\<in>set cs. CHR '' '' \<notin> set c \<Longrightarrow> split CHR '' '' (join '' '' cs) = cs"
proof (induction "'' ''" cs rule: join.induct)
  case 1
  then show ?case by simp
next
  case (2 x)
  then show ?case by (simp add: split_none)
next
  case (3 x y ys)
  then show ?case by (simp add: split_append)
qed

lemma join_nonempty: "cs \<noteq> [] \<Longrightarrow> hd cs \<noteq> [] \<Longrightarrow> join sep cs \<noteq> []"
  by (induction sep cs rule: join.induct) auto

lemma join_quote_free:
  "\<forall>c\<in>set cs. a \<notin> set c \<Longrightarrow> a \<notin> set sep \<Longrightarrow> a \<notin> set (join sep cs)"
  by (induction sep cs rule: join.induct) auto

lemma extractClasses_openingTagOf:
  assumes "cs \<noteq> []" and tok: "\<forall>c\<in>set cs. classToken c"
  shows "extractClasses (openingTagOf cs attr) = cs"
proof -
  define j where "j = join '' '' cs"
  obtain rest where tag:
    "openingTagOf cs attr = ''<span '' @ (''class='' @ [CHR 0x22] @ j @ CHR 0x22 # rest)"
    using assms(1) by (simp add: openingTagOf_def j_def)
  from tok have q: "CHR 0x22 \<notin> set j"
    unfolding j_def by (intro join_quote_free) (auto simp: classToken_def)
  from assms have ne: "j \<noteq> []"
    unfolding j_def by (intro join_nonempty) (auto simp: classToken_def)
  from tok have sp: "\<forall>c\<in>set cs. CHR '' '' \<notin> set c"
    by (simp add: classToken_def)
  have at: "attrAt ''class'' (''class='' @ [CHR 0x22] @ j @ CHR 0x22 # rest) = Some j"
    using q by (simp add: attrAt_def takeWhile_not_mem)
  have skip: "toLowerChar c \<noteq> CHR ''c'' \<Longrightarrow> attrAt ''class'' (c # x) = None" for c x
    by (simp add: attrAt_def)
  note hd = regexExec_head [of "attrAt ''class''"
                 "''class='' @ [CHR 0x22] @ j @ CHR 0x22 # rest" j, OF at]
  have "regexExec (attrAt ''class'') (openingTagOf cs attr) = Some (6, j)"
    unfolding tag using hd by (simp add: skip)
  with ne sp assms(1) tok show ?thesis
    by (simp add: extractClasses_def j_def [symmetric]) (simp add: j_def split_join classToken_def filter_id_conv)
qed

text \<open>
  The classes written for a segment come from the span or are the class of the style kind, so
  they are class tokens when the span is one of the segmenter.
\<close>

lemma applyStyle_classes:
  "c \<in> set (fst (applyStyle cfg styleType v st))
     \<Longrightarrow> c \<in> set (fst st) \<or> targetClassOf styleType = Some c"
  by (cases styleType)
     (auto simp: applyStyle_def targetClassOf_simps Let_def split: if_splits)

lemma removeStyle_classes: "c \<in> set (fst (removeStyle styleType st)) \<Longrightarrow> c \<in> set (fst st)"
  by (cases styleType) (auto simp: removeStyle_def targetClassOf_simps Let_def split: if_splits)

lemma applyStyle_earlier_classes:
  "c \<in> set (fst (applyStyle_earlier styleType v st))
     \<Longrightarrow> c \<in> set (fst st) \<or> targetClassOf styleType = Some c"
  by (cases styleType)
     (auto simp: applyStyle_earlier_def targetClassOf_simps Let_def split: if_splits)

lemma removeStyle_earlier_classes:
  "c \<in> set (fst (removeStyle_earlier styleType st)) \<Longrightarrow> c \<in> set (fst st)"
  by (cases styleType)
     (auto simp: removeStyle_earlier_def targetClassOf_simps Let_def split: if_splits)

lemma cleanup_earlier_classes_subset:
  "c \<in> set (fst (cleanup_earlier st)) \<Longrightarrow> c \<in> set (fst st)"
  unfolding cleanup_earlier_def
  apply (drule cleanup_step_classes(5))
  apply (drule cleanup_step_classes(4))
  apply (drule cleanup_step_classes(3))
  apply (drule cleanup_step_classes(2))
  apply (erule cleanup_step_classes(1))
  done

lemma targetClass_token: "targetClassOf styleType = Some c \<Longrightarrow> classToken c"
  by (cases styleType) (auto simp: targetClassOf_simps classToken_def)

lemma parsedSpan_tokens:
  "parsedSpan spanInfo \<Longrightarrow> c \<in> set (fst (initialState spanInfo)) \<Longrightarrow> classToken c"
  by (auto simp: parsedSpan_def initialState_def extractClasses_tokens split: option.splits)

lemma writtenClasses_tokens:
  assumes "parsedSpan spanInfo" and "c \<in> set (writtenClasses cfg spanInfo styleType v shouldApply)"
  shows "classToken c"
proof -
  from assms(2) have "c \<in> set (fst (reconcile cfg spanInfo styleType v shouldApply))"
    by (simp add: writtenClasses_def set_uniqueClassesOf)
  then have "c \<in> set (fst (if shouldApply then applyStyle cfg styleType v (initialState spanInfo)
                             else removeStyle styleType (initialState spanInfo)))"
    unfolding reconcile_eq by (rule cleanup_classes_subset)
  then have "c \<in> set (fst (initialState spanInfo)) \<or> targetClassOf styleType = Some c"
    by (auto dest: applyStyle_classes removeStyle_classes split: if_splits)
  then show ?thesis
    using parsedSpan_tokens [OF assms(1)] targetClass_token by blast
qed

lemma writtenClasses_earlier_tokens:
  assumes "parsedSpan spanInfo" and "c \<in> set (writtenClasses_earlier spanInfo styleType v shouldApply)"
  shows "classToken c"
proof -
  from assms(2) have "c \<in> set (fst (reconcile_earlier spanInfo styleType v shouldApply))"
    by (simp add: writtenClasses_earlier_def set_uniqueClassesOf)
  then have "c \<in> set (fst (if shouldApply then applyStyle_earlier styleType v (initialState spanInfo)
                             else removeStyle_earlier styleType (initialState spanInfo)))"
    unfolding reconcile_earlier_def by (rule cleanup_earlier_classes_subset)
  then have "c \<in> set (fst (initialState spanInfo)) \<or> targetClassOf styleType = Some c"
    by (auto dest: applyStyle_earlier_classes removeStyle_earlier_classes split: if_splits)
  then show ?thesis
    using parsedSpan_tokens [OF assms(1)] targetClass_token by blast
qed

text \<open>The class attribute written for a segment reads back as the class list written.\<close>

lemma writtenTag_classes:
  assumes "parsedSpan spanInfo"
    and "writtenClasses cfg spanInfo styleType v shouldApply \<noteq> []"
  shows "extractClasses (writtenTag cfg spanInfo styleType v shouldApply)
         = writtenClasses cfg spanInfo styleType v shouldApply"
  unfolding writtenTag_def
  using assms(2) writtenClasses_tokens [OF assms(1)]
  by (intro extractClasses_openingTagOf) auto

lemma applyModificationToSegment_written:
  "applyModificationToSegment cfg txt spanInfo styleType v shouldApply
     = (if writtenClasses cfg spanInfo styleType v shouldApply = []
           \<and> styleAttrValueOf (writtenVariables cfg spanInfo styleType v shouldApply) = []
        then txt
        else writtenTag cfg spanInfo styleType v shouldApply @ txt @ ''</span>'')"
  by (simp add: applyModificationToSegment_def reconstructSpan_def writtenClasses_def
      writtenVariables_def writtenTag_def Let_def)

lemma applyModificationToSegment_earlier_written:
  "applyModificationToSegment_earlier txt spanInfo styleType v shouldApply
     = (if writtenClasses_earlier spanInfo styleType v shouldApply = []
           \<and> styleAttrValueOf (writtenVariables_earlier spanInfo styleType v shouldApply) = []
        then txt
        else writtenTag_earlier spanInfo styleType v shouldApply @ txt @ ''</span>'')"
  by (simp add: applyModificationToSegment_earlier_def reconstructSpan_def
      writtenClasses_earlier_def writtenVariables_earlier_def writtenTag_earlier_def Let_def)

lemma parsedSpan_spanOfTag: "parsedSpan (Some (spanOfTag tag off))"
  by (simp add: parsedSpan_def spanOfTag_def)

lemma parseLoop_spans:
  assumes "parsedSpan cur" and "\<forall>seg\<in>set segs. parsedSpan (span seg)"
  shows "\<forall>seg\<in>set (parseLoop s i cur segs). parsedSpan (span seg)"
  using assms
proof (induction "length s - i" arbitrary: i cur segs rule: less_induct)
  case less
  show ?case
  proof (cases "i < length s")
    case False
    with less.prems show ?thesis
      by (simp add: parseLoop.simps [of s i])
  next
    case True
    show ?thesis
    proof (cases "regexExec tagAt (drop i s)")
      case None
      with True less.prems show ?thesis
        by (simp add: parseLoop.simps [of s i] Let_def)
    next
      case (Some m)
      obtain tagStart n where m: "m = (tagStart, n)" by (cases m)
      from Some m regexExec_tagAt_bounds [of "drop i s" tagStart n]
      have b: "0 < n" "tagStart + n \<le> length s - i" by simp_all
      then have len: "length (take n (drop tagStart (drop i s))) = n" by simp
      have step: "parseLoop s i cur segs
                  = parseLoop s (i + tagStart + n)
                      (if startsWith (take n (drop tagStart (drop i s))) ''</span'' then None
                       else Some (spanOfTag (take n (drop tagStart (drop i s))) (i + tagStart)))
                      (if i + tagStart > i
                       then segs @ [\<lparr>text' = substring s i (i + tagStart), start = i,
                                     end' = i + tagStart, span = cur\<rparr>]
                       else segs)"
        using True Some m len
        by (subst parseLoop.simps) (simp add: Let_def)
      have "length s - (i + tagStart + n) < length s - i"
        using True b by simp
      note ih = less.hyps [OF this]
      show ?thesis
        unfolding step
      proof (rule ih)
        show "parsedSpan
                (if startsWith (take n (drop tagStart (drop i s))) ''</span'' then None
                 else Some (spanOfTag (take n (drop tagStart (drop i s))) (i + tagStart)))"
          by (simp add: parsedSpan_spanOfTag) (simp add: parsedSpan_def)
        show "\<forall>seg\<in>set (if i + tagStart > i
                         then segs @ [\<lparr>text' = substring s i (i + tagStart), start = i,
                                       end' = i + tagStart, span = cur\<rparr>]
                         else segs). parsedSpan (span seg)"
          using less.prems by simp
      qed
    qed
  qed
qed

lemma parseSelection_Nil: "parseSelection [] = []"
  by (simp add: parseSelection_def parseLoop.simps [of "[]"])

lemma parseSelection_spans: "seg \<in> set (parseSelection s) \<Longrightarrow> parsedSpan (span seg)"
proof -
  have "\<forall>seg\<in>set (parseLoop s 0 None []). parsedSpan (span seg)"
    by (rule parseLoop_spans) (simp_all add: parsedSpan_def)
  moreover assume "seg \<in> set (parseSelection s)"
  ultimately show ?thesis
    by (auto simp: parseSelection_def Let_def parsedSpan_def split: if_splits)
qed

lemma modifySegments_concat:
  "modifySegments cfg styleType v shouldApply segments acc
     = acc @ concat (map (\<lambda>seg. applyModificationToSegment cfg (text' seg) (span seg) styleType v
                                    shouldApply) segments)"
  by (induction segments arbitrary: acc) simp_all

lemma toggleStyle_segments:
  "selectedText \<noteq> []
     \<Longrightarrow> toggleStyle cfg selectedText styleType v
         = Replaced (concat (map (toggledSegment cfg (parseSelection selectedText) styleType v)
                               (parseSelection selectedText)))"
  by (simp add: toggleStyle_def modifySegments_concat toggledSegment_def [abs_def] Let_def)

section \<open>Plain and colored underline on a segment and on a selection\<close>

text \<open>
  Whatever the span, the style kind, the value and the direction, the class list written for
  a segment never holds the plain underline class together with the colored-underline class
  or with an underline colour or thickness variable. Applying colored-underline with a value
  leaves no plain underline class, and applying plain underline leaves no colored-underline
  class and neither of its two variables.
\<close>

lemma underline_exclusive_written:
  "(''styler-underline'' \<in> set (writtenClasses cfg spanInfo styleType v shouldApply)
      \<longrightarrow> ''styler-colored-underline'' \<notin> set (writtenClasses cfg spanInfo styleType v shouldApply)
          \<and> map_of (writtenVariables cfg spanInfo styleType v shouldApply)
               ''--styler-underline-color'' = None
          \<and> map_of (writtenVariables cfg spanInfo styleType v shouldApply)
               ''--styler-underline-thickness'' = None)
   \<and> (truthy v
      \<longrightarrow> ''styler-underline'' \<notin> set (writtenClasses cfg spanInfo ColoredUnderline v True))
   \<and> ''styler-colored-underline'' \<notin> set (writtenClasses cfg spanInfo Underline v True)
   \<and> map_of (writtenVariables cfg spanInfo Underline v True) ''--styler-underline-color'' = None
   \<and> map_of (writtenVariables cfg spanInfo Underline v True) ''--styler-underline-thickness''
       = None"
  unfolding writtenClasses_def writtenVariables_def
proof (intro conjI impI)
  assume "''styler-underline''
          \<in> set (uniqueClassesOf (fst (reconcile cfg spanInfo styleType v shouldApply)))"
  then have u: "''styler-underline'' \<in> set (fst (reconcile cfg spanInfo styleType v shouldApply))"
    by (simp add: set_uniqueClassesOf)
  from cleanup_underline [OF u [unfolded reconcile_eq], folded reconcile_eq]
  show "''styler-colored-underline''
          \<notin> set (uniqueClassesOf (fst (reconcile cfg spanInfo styleType v shouldApply)))"
    and "map_of (snd (reconcile cfg spanInfo styleType v shouldApply))
           ''--styler-underline-color'' = None"
    and "map_of (snd (reconcile cfg spanInfo styleType v shouldApply))
           ''--styler-underline-thickness'' = None"
    by (simp_all add: set_uniqueClassesOf)
next
  assume t: "truthy v"
  have "''styler-underline'' \<notin> set (fst (reconcile cfg spanInfo ColoredUnderline v True))"
    using cleanup_classes_subset [of "''styler-underline''"
            "applyStyle cfg ColoredUnderline v (initialState spanInfo)"]
      applyStyle_colored_underline [OF t]
    by (auto simp: reconcile_eq)
  then show "''styler-underline''
          \<notin> set (uniqueClassesOf (fst (reconcile cfg spanInfo ColoredUnderline v True)))"
    by (simp add: set_uniqueClassesOf)
next
  have u: "''styler-underline'' \<in> set (fst (reconcile cfg spanInfo Underline v True))"
    unfolding reconcile_eq
    by (simp add: cleanup_keeps_class applyStyle_underline)
  from cleanup_underline [OF u [unfolded reconcile_eq], folded reconcile_eq]
  show "''styler-colored-underline''
          \<notin> set (uniqueClassesOf (fst (reconcile cfg spanInfo Underline v True)))"
    and "map_of (snd (reconcile cfg spanInfo Underline v True)) ''--styler-underline-color''
         = None"
    and "map_of (snd (reconcile cfg spanInfo Underline v True)) ''--styler-underline-thickness''
         = None"
    by (simp_all add: set_uniqueClassesOf)
qed

text \<open>
  The same for the output of a toggle, segment by segment: the output is the segments of the
  selection in order, each one its text alone or its text in the wrapper written for it; a
  class attribute that is written reads back, by \<open>extractClasses\<close>, as the class list
  written, which never holds both underline classes.
\<close>

lemma underline_exclusive_segments:
  assumes "seg \<in> set (parseSelection selectedText)"
  shows "toggleStyle cfg selectedText styleType v
           = Replaced (concat (map (toggledSegment cfg (parseSelection selectedText) styleType v)
                                 (parseSelection selectedText)))
         \<and> toggledSegment cfg (parseSelection selectedText) styleType v seg
           = (if writtenClasses cfg (span seg) styleType v
                   (shouldApplyFor (parseSelection selectedText) styleType v) = []
                 \<and> styleAttrValueOf
                     (writtenVariables cfg (span seg) styleType v
                        (shouldApplyFor (parseSelection selectedText) styleType v)) = []
              then text' seg
              else writtenTag cfg (span seg) styleType v
                     (shouldApplyFor (parseSelection selectedText) styleType v)
                   @ text' seg @ ''</span>'')
         \<and> (writtenClasses cfg (span seg) styleType v
               (shouldApplyFor (parseSelection selectedText) styleType v) \<noteq> []
            \<longrightarrow> extractClasses
                  (writtenTag cfg (span seg) styleType v
                     (shouldApplyFor (parseSelection selectedText) styleType v))
                = writtenClasses cfg (span seg) styleType v
                    (shouldApplyFor (parseSelection selectedText) styleType v))
         \<and> \<not> (''styler-underline''
                  \<in> set (writtenClasses cfg (span seg) styleType v
                           (shouldApplyFor (parseSelection selectedText) styleType v))
                \<and> ''styler-colored-underline''
                  \<in> set (writtenClasses cfg (span seg) styleType v
                           (shouldApplyFor (parseSelection selectedText) styleType v)))"
proof -
  define d where "d = shouldApplyFor (parseSelection selectedText) styleType v"
  from assms have ne0: "selectedText \<noteq> []"
    by (auto simp: parseSelection_Nil)
  from assms have p: "parsedSpan (span seg)"
    by (rule parseSelection_spans)
  have out: "toggledSegment cfg (parseSelection selectedText) styleType v seg
             = (if writtenClasses cfg (span seg) styleType v d = []
                   \<and> styleAttrValueOf (writtenVariables cfg (span seg) styleType v d) = []
                then text' seg
                else writtenTag cfg (span seg) styleType v d @ text' seg @ ''</span>'')"
    by (simp add: toggledSegment_def applyModificationToSegment_written d_def)
  show ?thesis
    unfolding d_def [symmetric]
    using toggleStyle_segments [OF ne0, of cfg styleType v] out
      writtenTag_classes [OF p, of cfg styleType v d]
      underline_exclusive_written [of cfg "span seg" styleType v d]
    by (intro conjI impI) (simp_all add: d_def)
qed

text \<open>
  Claim C3: after a toggle, nothing in the output carries both the plain underline class and
  the colored-underline state. The cleanup sees to it on every segment the toggle
  reconciles, as the two lemmas above say, and the claim fails where nothing is reconciled,
  on a selection made of tags only. The segmenter finds no text between the tags and falls
  back to one segment that holds the whole selection as text, under no span: the toggle
  wraps it as it is, and a wrapper in it that carries the plain underline class and the
  colored-underline class is in the output with both.
\<close>

theorem C3_tags_only_selection:
  \<open>map text' (parseSelection ''<span class="styler-underline styler-colored-underline"></span>'')
     = [''<span class="styler-underline styler-colored-underline"></span>'']
   \<and> map span (parseSelection ''<span class="styler-underline styler-colored-underline"></span>'')
     = [None]
   \<and> toggleStyle cfg ''<span class="styler-underline styler-colored-underline"></span>'' Bold None
     = Replaced (''<span class="styler-bold">''
                 @ ''<span class="styler-underline styler-colored-underline"></span>''
                 @ ''</span>'')\<close>
  by code_simp

section \<open>Marker classes and their variables\<close>

lemma falsyAt_assign:
  "falsyAt (assign k x m) k' = (if k' = k then x = [] else falsyAt m k')"
  by (simp add: falsyAt_def map_of_assign)

lemma applyStyle_falsyAt:
  "falsyAt (snd (applyStyle cfg styleType v st)) ''--styler-text-color''
     = (if styleType = Color \<and> truthy v then False else falsyAt (snd st) ''--styler-text-color'')"
  "falsyAt (snd (applyStyle cfg styleType v st)) ''--styler-highlight-color''
     = (if styleType = Highlight \<and> truthy v then False
        else falsyAt (snd st) ''--styler-highlight-color'')"
  "falsyAt (snd (applyStyle cfg styleType v st)) ''--styler-circle-color''
     = (if styleType = Circled \<and> truthy v then False
        else falsyAt (snd st) ''--styler-circle-color'')"
  by (simp_all add: applyStyle_def Let_def falsyAt_assign falsyAt_delete truthy_def valueText_def
      split: option.splits)

lemma cleanup_step_class_iff:
  "(c \<in> set (fst (cleanupNoUnderlineClass st))) = (c \<in> set (fst st))"
  "(c \<in> set (fst (cleanupColoredVars st))) = (c \<in> set (fst st))"
  "(c \<in> set (fst (cleanupColoredMarker st)))
     = (c \<in> set (fst st) \<and> (c = ''styler-colored'' \<longrightarrow> \<not> falsyAt (snd st) ''--styler-text-color''))"
  "(c \<in> set (fst (cleanupHighlightedMarker st)))
     = (c \<in> set (fst st)
        \<and> (c = ''styler-highlighted'' \<longrightarrow> \<not> falsyAt (snd st) ''--styler-highlight-color''))"
  "(c \<in> set (fst (cleanupColoredUnderlineMarker st)))
     = (c \<in> set (fst st)
        \<and> (c = ''styler-colored-underline'' \<longrightarrow> \<not> falsyAt (snd st) ''--styler-underline-color''))"
  "(c \<in> set (fst (cleanupCircledMarker st)))
     = (c \<in> set (fst st)
        \<and> (c = ''styler-circled'' \<longrightarrow> \<not> falsyAt (snd st) ''--styler-circle-color''))"
  by (auto simp: cleanup_steps Let_def class_names)

lemma cleanup_marker_iff:
  "(''styler-colored'' \<in> set (fst (cleanup st)))
     = (''styler-colored'' \<in> set (fst st) \<and> \<not> falsyAt (snd st) ''--styler-text-color'')"
  "(''styler-highlighted'' \<in> set (fst (cleanup st)))
     = (''styler-highlighted'' \<in> set (fst st) \<and> \<not> falsyAt (snd st) ''--styler-highlight-color'')"
  "(''styler-circled'' \<in> set (fst (cleanup st)))
     = (''styler-circled'' \<in> set (fst st) \<and> \<not> falsyAt (snd st) ''--styler-circle-color'')"
  by (simp_all add: cleanup_def cleanup_step_class_iff cleanup_step_falsyAt)

lemma cleanup_earlier_marker_iff:
  "(''styler-colored'' \<in> set (fst (cleanup_earlier st)))
     = (''styler-colored'' \<in> set (fst st) \<and> \<not> falsyAt (snd st) ''--styler-text-color'')"
  "(''styler-highlighted'' \<in> set (fst (cleanup_earlier st)))
     = (''styler-highlighted'' \<in> set (fst st) \<and> \<not> falsyAt (snd st) ''--styler-highlight-color'')"
  "(''styler-circled'' \<in> set (fst (cleanup_earlier st))) = (''styler-circled'' \<in> set (fst st))"
  by (simp_all add: cleanup_earlier_def cleanup_step_class_iff cleanup_step_falsyAt)

lemma cleanup_earlier_falsyAt_kept:
  assumes "k \<noteq> ''--styler-underline-color''" "k \<noteq> ''--styler-underline-thickness''"
    "k \<noteq> ''--styler-circle-thickness''"
  shows "falsyAt (snd (cleanup_earlier st)) k = falsyAt (snd st) k"
  by (simp add: cleanup_earlier_def cleanup_step_falsyAt [OF assms])

lemma cleanup_last_step: "cleanup st = cleanupCircledMarker (cleanup_earlier st)"
  by (simp add: cleanup_def cleanup_earlier_def)

lemma cleanup_earlier_colored_underline:
  "(''styler-colored-underline'' \<in> set (fst (cleanup_earlier st)))
     = (\<not> falsyAt (snd (cleanup_earlier st)) ''--styler-underline-color'')"
proof -
  have a: "(''styler-colored-underline'' \<in> set (fst (cleanup st)))
           = (''styler-colored-underline'' \<in> set (fst (cleanup_earlier st)))"
    by (simp add: cleanup_last_step cleanup_step_class_iff)
  have b: "falsyAt (snd (cleanup st)) ''--styler-underline-color''
           = falsyAt (snd (cleanup_earlier st)) ''--styler-underline-color''"
    by (simp add: cleanup_last_step cleanupCircledMarker_def falsyAt_delete)
  from cleanup_colored_underline [of st] cleanup_underline_color_marked [of st]
  show ?thesis
    unfolding a b by blast
qed

lemma applyStyle_marker_iff:
  "(''styler-colored'' \<in> set (fst (applyStyle cfg styleType v st)))
     = (''styler-colored'' \<in> set (fst st) \<or> styleType = Color)"
  "(''styler-highlighted'' \<in> set (fst (applyStyle cfg styleType v st)))
     = (''styler-highlighted'' \<in> set (fst st) \<or> styleType = Highlight)"
  "(''styler-circled'' \<in> set (fst (applyStyle cfg styleType v st)))
     = (''styler-circled'' \<in> set (fst st) \<or> styleType = Circled)"
  by (cases styleType;
      auto simp: applyStyle_def targetClassOf_simps class_names includes'_def Let_def)+

lemma removeStyle_marker_iff:
  "(''styler-colored'' \<in> set (fst (removeStyle styleType st)))
     = (''styler-colored'' \<in> set (fst st) \<and> styleType \<noteq> Color)"
  "(''styler-highlighted'' \<in> set (fst (removeStyle styleType st)))
     = (''styler-highlighted'' \<in> set (fst st) \<and> styleType \<noteq> Highlight)"
  "(''styler-circled'' \<in> set (fst (removeStyle styleType st)))
     = (''styler-circled'' \<in> set (fst st) \<and> styleType \<noteq> Circled)"
  by (cases styleType; auto simp: removeStyle_def targetClassOf_simps Let_def)+

lemma removeStyle_falsyAt:
  "falsyAt (snd (removeStyle styleType st)) ''--styler-text-color''
     = (styleType = Color \<or> falsyAt (snd st) ''--styler-text-color'')"
  "falsyAt (snd (removeStyle styleType st)) ''--styler-highlight-color''
     = (styleType = Highlight \<or> falsyAt (snd st) ''--styler-highlight-color'')"
  "falsyAt (snd (removeStyle styleType st)) ''--styler-circle-color''
     = (styleType = Circled \<or> falsyAt (snd st) ''--styler-circle-color'')"
  by (cases styleType; simp add: removeStyle_def Let_def falsyAt_delete)+

lemma applyStyle_earlier_marker_iff:
  "(''styler-colored'' \<in> set (fst (applyStyle_earlier styleType v st)))
     = (''styler-colored'' \<in> set (fst st) \<or> styleType = Color)"
  "(''styler-highlighted'' \<in> set (fst (applyStyle_earlier styleType v st)))
     = (''styler-highlighted'' \<in> set (fst st) \<or> styleType = Highlight)"
  by (cases styleType;
      auto simp: applyStyle_earlier_def targetClassOf_simps class_names includes'_def Let_def)+

lemma removeStyle_earlier_marker_iff:
  "(''styler-colored'' \<in> set (fst (removeStyle_earlier styleType st)))
     = (''styler-colored'' \<in> set (fst st) \<and> styleType \<noteq> Color)"
  "(''styler-highlighted'' \<in> set (fst (removeStyle_earlier styleType st)))
     = (''styler-highlighted'' \<in> set (fst st) \<and> styleType \<noteq> Highlight)"
  by (cases styleType; auto simp: removeStyle_earlier_def targetClassOf_simps Let_def)+

lemma applyStyle_earlier_falsyAt:
  "falsyAt (snd (applyStyle_earlier styleType v st)) ''--styler-text-color''
     = (if styleType = Color \<and> truthy v then False else falsyAt (snd st) ''--styler-text-color'')"
  "falsyAt (snd (applyStyle_earlier styleType v st)) ''--styler-highlight-color''
     = (if styleType = Highlight \<and> truthy v then False
        else falsyAt (snd st) ''--styler-highlight-color'')"
  by (simp_all add: applyStyle_earlier_def Let_def falsyAt_assign falsyAt_delete truthy_def
      valueText_def split: option.splits)

lemma removeStyle_earlier_falsyAt:
  "falsyAt (snd (removeStyle_earlier styleType st)) ''--styler-text-color''
     = (styleType = Color \<or> falsyAt (snd st) ''--styler-text-color'')"
  "falsyAt (snd (removeStyle_earlier styleType st)) ''--styler-highlight-color''
     = (styleType = Highlight \<or> falsyAt (snd st) ''--styler-highlight-color'')"
  by (cases styleType; simp add: removeStyle_earlier_def Let_def falsyAt_delete)+

text \<open>
  A colour is written without its marker class exactly when it came without it and the
  toggle is of another kind.
\<close>

lemma reconcile_unmarked:
  "(\<not> falsyAt (snd (reconcile cfg spanInfo styleType v shouldApply)) ''--styler-text-color''
    \<and> ''styler-colored'' \<notin> set (fst (reconcile cfg spanInfo styleType v shouldApply)))
   = (\<not> falsyAt (snd (initialState spanInfo)) ''--styler-text-color''
      \<and> ''styler-colored'' \<notin> set (fst (initialState spanInfo)) \<and> styleType \<noteq> Color)"
  "(\<not> falsyAt (snd (reconcile cfg spanInfo styleType v shouldApply)) ''--styler-highlight-color''
    \<and> ''styler-highlighted'' \<notin> set (fst (reconcile cfg spanInfo styleType v shouldApply)))
   = (\<not> falsyAt (snd (initialState spanInfo)) ''--styler-highlight-color''
      \<and> ''styler-highlighted'' \<notin> set (fst (initialState spanInfo)) \<and> styleType \<noteq> Highlight)"
  "(\<not> falsyAt (snd (reconcile cfg spanInfo styleType v shouldApply)) ''--styler-circle-color''
    \<and> ''styler-circled'' \<notin> set (fst (reconcile cfg spanInfo styleType v shouldApply)))
   = (\<not> falsyAt (snd (initialState spanInfo)) ''--styler-circle-color''
      \<and> ''styler-circled'' \<notin> set (fst (initialState spanInfo)) \<and> styleType \<noteq> Circled)"
  unfolding reconcile_eq
  by (cases shouldApply;
      simp add: cleanup_marker_iff cleanup_falsyAt_kept applyStyle_marker_iff applyStyle_falsyAt
        removeStyle_marker_iff removeStyle_falsyAt; blast)+

lemma reconcile_earlier_unmarked:
  "(\<not> falsyAt (snd (reconcile_earlier spanInfo styleType v shouldApply)) ''--styler-text-color''
    \<and> ''styler-colored'' \<notin> set (fst (reconcile_earlier spanInfo styleType v shouldApply)))
   = (\<not> falsyAt (snd (initialState spanInfo)) ''--styler-text-color''
      \<and> ''styler-colored'' \<notin> set (fst (initialState spanInfo)) \<and> styleType \<noteq> Color)"
  "(\<not> falsyAt (snd (reconcile_earlier spanInfo styleType v shouldApply))
        ''--styler-highlight-color''
    \<and> ''styler-highlighted'' \<notin> set (fst (reconcile_earlier spanInfo styleType v shouldApply)))
   = (\<not> falsyAt (snd (initialState spanInfo)) ''--styler-highlight-color''
      \<and> ''styler-highlighted'' \<notin> set (fst (initialState spanInfo)) \<and> styleType \<noteq> Highlight)"
  unfolding reconcile_earlier_def
  by (cases shouldApply;
      simp add: cleanup_earlier_marker_iff cleanup_earlier_falsyAt_kept
        applyStyle_earlier_marker_iff applyStyle_earlier_falsyAt
        removeStyle_earlier_marker_iff removeStyle_earlier_falsyAt; blast)+

text \<open>
  Claim C4, as the code has it, for the current style manager and for the earlier one. The
  output for a segment is its text alone or its text in the wrapper written for it. In that
  wrapper a marker class of a value-bearing kind (colored, highlighted, circled) is never
  written without its colour variable holding a non-empty value, and the colored-underline
  class is written exactly when the underline colour holds a non-empty value. The converse
  fails for the other three: a text, highlight or circle colour with a non-empty value is
  written without its marker class exactly when it came that way in the opening tag and the
  toggle is of another kind, as in \<open>C4_counterexample\<close>. The earlier style manager has no
  circle colour: the statements about colored, highlighted and colored-underline hold of it
  as they stand.
\<close>

theorem C4_marker_backed:
  "applyModificationToSegment cfg txt spanInfo styleType v shouldApply
     = (if writtenClasses cfg spanInfo styleType v shouldApply = []
           \<and> styleAttrValueOf (writtenVariables cfg spanInfo styleType v shouldApply) = []
        then txt
        else ''<span''
             @ (if writtenClasses cfg spanInfo styleType v shouldApply = [] then []
                else '' class='' @ [CHR 0x22]
                     @ join '' '' (writtenClasses cfg spanInfo styleType v shouldApply)
                     @ [CHR 0x22])
             @ (if styleAttrValueOf (writtenVariables cfg spanInfo styleType v shouldApply) = []
                then []
                else '' style='' @ [CHR 0x22]
                     @ styleAttrValueOf (writtenVariables cfg spanInfo styleType v shouldApply)
                     @ [CHR 0x22])
             @ ''>'' @ txt @ ''</span>'')
   \<and> (''styler-colored'' \<in> set (writtenClasses cfg spanInfo styleType v shouldApply)
      \<longrightarrow> \<not> falsyAt (writtenVariables cfg spanInfo styleType v shouldApply)
              ''--styler-text-color'')
   \<and> (''styler-highlighted'' \<in> set (writtenClasses cfg spanInfo styleType v shouldApply)
      \<longrightarrow> \<not> falsyAt (writtenVariables cfg spanInfo styleType v shouldApply)
              ''--styler-highlight-color'')
   \<and> (''styler-circled'' \<in> set (writtenClasses cfg spanInfo styleType v shouldApply)
      \<longrightarrow> \<not> falsyAt (writtenVariables cfg spanInfo styleType v shouldApply)
              ''--styler-circle-color'')
   \<and> ((''styler-colored-underline'' \<in> set (writtenClasses cfg spanInfo styleType v shouldApply))
       = (\<not> falsyAt (writtenVariables cfg spanInfo styleType v shouldApply)
              ''--styler-underline-color''))
   \<and> ((\<not> falsyAt (writtenVariables cfg spanInfo styleType v shouldApply) ''--styler-text-color''
        \<and> ''styler-colored'' \<notin> set (writtenClasses cfg spanInfo styleType v shouldApply))
       = (\<not> falsyAt (snd (initialState spanInfo)) ''--styler-text-color''
          \<and> ''styler-colored'' \<notin> set (fst (initialState spanInfo)) \<and> styleType \<noteq> Color))
   \<and> ((\<not> falsyAt (writtenVariables cfg spanInfo styleType v shouldApply)
             ''--styler-highlight-color''
        \<and> ''styler-highlighted'' \<notin> set (writtenClasses cfg spanInfo styleType v shouldApply))
       = (\<not> falsyAt (snd (initialState spanInfo)) ''--styler-highlight-color''
          \<and> ''styler-highlighted'' \<notin> set (fst (initialState spanInfo))
          \<and> styleType \<noteq> Highlight))
   \<and> ((\<not> falsyAt (writtenVariables cfg spanInfo styleType v shouldApply) ''--styler-circle-color''
        \<and> ''styler-circled'' \<notin> set (writtenClasses cfg spanInfo styleType v shouldApply))
       = (\<not> falsyAt (snd (initialState spanInfo)) ''--styler-circle-color''
          \<and> ''styler-circled'' \<notin> set (fst (initialState spanInfo)) \<and> styleType \<noteq> Circled))
   \<and> applyModificationToSegment_earlier txt spanInfo styleType v shouldApply
     = (if writtenClasses_earlier spanInfo styleType v shouldApply = []
           \<and> styleAttrValueOf (writtenVariables_earlier spanInfo styleType v shouldApply) = []
        then txt
        else ''<span''
             @ (if writtenClasses_earlier spanInfo styleType v shouldApply = [] then []
                else '' class='' @ [CHR 0x22]
                     @ join '' '' (writtenClasses_earlier spanInfo styleType v shouldApply)
                     @ [CHR 0x22])
             @ (if styleAttrValueOf (writtenVariables_earlier spanInfo styleType v shouldApply)
                   = []
                then []
                else '' style='' @ [CHR 0x22]
                     @ styleAttrValueOf
                         (writtenVariables_earlier spanInfo styleType v shouldApply)
                     @ [CHR 0x22])
             @ ''>'' @ txt @ ''</span>'')
   \<and> (''styler-colored'' \<in> set (writtenClasses_earlier spanInfo styleType v shouldApply)
      \<longrightarrow> \<not> falsyAt (writtenVariables_earlier spanInfo styleType v shouldApply)
              ''--styler-text-color'')
   \<and> (''styler-highlighted'' \<in> set (writtenClasses_earlier spanInfo styleType v shouldApply)
      \<longrightarrow> \<not> falsyAt (writtenVariables_earlier spanInfo styleType v shouldApply)
              ''--styler-highlight-color'')
   \<and> ((''styler-colored-underline''
          \<in> set (writtenClasses_earlier spanInfo styleType v shouldApply))
       = (\<not> falsyAt (writtenVariables_earlier spanInfo styleType v shouldApply)
              ''--styler-underline-color''))
   \<and> ((\<not> falsyAt (writtenVariables_earlier spanInfo styleType v shouldApply)
             ''--styler-text-color''
        \<and> ''styler-colored'' \<notin> set (writtenClasses_earlier spanInfo styleType v shouldApply))
       = (\<not> falsyAt (snd (initialState spanInfo)) ''--styler-text-color''
          \<and> ''styler-colored'' \<notin> set (fst (initialState spanInfo)) \<and> styleType \<noteq> Color))
   \<and> ((\<not> falsyAt (writtenVariables_earlier spanInfo styleType v shouldApply)
             ''--styler-highlight-color''
        \<and> ''styler-highlighted''
            \<notin> set (writtenClasses_earlier spanInfo styleType v shouldApply))
       = (\<not> falsyAt (snd (initialState spanInfo)) ''--styler-highlight-color''
          \<and> ''styler-highlighted'' \<notin> set (fst (initialState spanInfo))
          \<and> styleType \<noteq> Highlight))"
proof -
  define st where
    "st = (if shouldApply then applyStyle cfg styleType v (initialState spanInfo)
           else removeStyle styleType (initialState spanInfo))"
  define st' where
    "st' = (if shouldApply then applyStyle_earlier styleType v (initialState spanInfo)
            else removeStyle_earlier styleType (initialState spanInfo))"
  have r: "reconcile cfg spanInfo styleType v shouldApply = cleanup st"
    by (simp add: reconcile_eq st_def)
  have r': "reconcile_earlier spanInfo styleType v shouldApply = cleanup_earlier st'"
    by (simp add: reconcile_earlier_def st'_def)
  have wc: "set (writtenClasses cfg spanInfo styleType v shouldApply) = set (fst (cleanup st)) - {[]}"
    by (simp add: writtenClasses_def r set_uniqueClassesOf)
  have wv: "writtenVariables cfg spanInfo styleType v shouldApply = snd (cleanup st)"
    by (simp add: writtenVariables_def r)
  have wc': "set (writtenClasses_earlier spanInfo styleType v shouldApply)
             = set (fst (cleanup_earlier st')) - {[]}"
    by (simp add: writtenClasses_earlier_def r' set_uniqueClassesOf)
  have wv': "writtenVariables_earlier spanInfo styleType v shouldApply = snd (cleanup_earlier st')"
    by (simp add: writtenVariables_earlier_def r')
  have out: "applyModificationToSegment cfg txt spanInfo styleType v shouldApply
     = (if writtenClasses cfg spanInfo styleType v shouldApply = []
           \<and> styleAttrValueOf (writtenVariables cfg spanInfo styleType v shouldApply) = []
        then txt
        else ''<span''
             @ (if writtenClasses cfg spanInfo styleType v shouldApply = [] then []
                else '' class='' @ [CHR 0x22]
                     @ join '' '' (writtenClasses cfg spanInfo styleType v shouldApply)
                     @ [CHR 0x22])
             @ (if styleAttrValueOf (writtenVariables cfg spanInfo styleType v shouldApply) = []
                then []
                else '' style='' @ [CHR 0x22]
                     @ styleAttrValueOf (writtenVariables cfg spanInfo styleType v shouldApply)
                     @ [CHR 0x22])
             @ ''>'' @ txt @ ''</span>'')"
    by (simp add: applyModificationToSegment_written writtenTag_def openingTagOf_def)
  have out': "applyModificationToSegment_earlier txt spanInfo styleType v shouldApply
     = (if writtenClasses_earlier spanInfo styleType v shouldApply = []
           \<and> styleAttrValueOf (writtenVariables_earlier spanInfo styleType v shouldApply) = []
        then txt
        else ''<span''
             @ (if writtenClasses_earlier spanInfo styleType v shouldApply = [] then []
                else '' class='' @ [CHR 0x22]
                     @ join '' '' (writtenClasses_earlier spanInfo styleType v shouldApply)
                     @ [CHR 0x22])
             @ (if styleAttrValueOf (writtenVariables_earlier spanInfo styleType v shouldApply)
                   = []
                then []
                else '' style='' @ [CHR 0x22]
                     @ styleAttrValueOf
                         (writtenVariables_earlier spanInfo styleType v shouldApply)
                     @ [CHR 0x22])
             @ ''>'' @ txt @ ''</span>'')"
    by (simp add: applyModificationToSegment_earlier_written writtenTag_earlier_def
        openingTagOf_def)
  have m: "''styler-colored'' \<in> set (fst (cleanup st))
             \<longrightarrow> \<not> falsyAt (snd (cleanup st)) ''--styler-text-color''"
    "''styler-highlighted'' \<in> set (fst (cleanup st))
             \<longrightarrow> \<not> falsyAt (snd (cleanup st)) ''--styler-highlight-color''"
    "''styler-circled'' \<in> set (fst (cleanup st))
             \<longrightarrow> \<not> falsyAt (snd (cleanup st)) ''--styler-circle-color''"
    "(''styler-colored-underline'' \<in> set (fst (cleanup st)))
       = (\<not> falsyAt (snd (cleanup st)) ''--styler-underline-color'')"
    using cleanup_colored [of st] cleanup_highlighted [of st] cleanup_circled [of st]
      cleanup_colored_underline [of st] cleanup_underline_color_marked [of st]
    by blast+
  have m': "''styler-colored'' \<in> set (fst (cleanup_earlier st'))
             \<longrightarrow> \<not> falsyAt (snd (cleanup_earlier st')) ''--styler-text-color''"
    "''styler-highlighted'' \<in> set (fst (cleanup_earlier st'))
             \<longrightarrow> \<not> falsyAt (snd (cleanup_earlier st')) ''--styler-highlight-color''"
    "(''styler-colored-underline'' \<in> set (fst (cleanup_earlier st')))
       = (\<not> falsyAt (snd (cleanup_earlier st')) ''--styler-underline-color'')"
    by (simp_all add: cleanup_earlier_marker_iff cleanup_earlier_falsyAt_kept
        cleanup_earlier_colored_underline)
  note u = reconcile_unmarked [of cfg spanInfo styleType v shouldApply, unfolded r]
  note u' = reconcile_earlier_unmarked [of spanInfo styleType v shouldApply, unfolded r']
  show ?thesis
    using out out' m m' u u'
    by (intro conjI) (simp_all add: wc wv wc' wv')
qed

theorem C4_counterexample:
  \<open>toggleStyle exampleSettings ''<span style="--styler-text-color: #ff0000;">X</span>'' Bold None
     = Replaced ''<span class="styler-bold" style="--styler-text-color: #ff0000;">X</span>''
   \<and> writtenClasses exampleSettings
        (Some (spanOfTag ''<span style="--styler-text-color: #ff0000;">'' 0)) Bold None True
     = [''styler-bold'']
   \<and> writtenVariables exampleSettings
        (Some (spanOfTag ''<span style="--styler-text-color: #ff0000;">'' 0)) Bold None True
     = [(''--styler-text-color'', ''#ff0000'')]\<close>
  by code_simp

theorem C4_witness:
  "''styler-colored'' \<in> set (writtenClasses exampleSettings (Some exampleMarkedSpan) Bold None True)
   \<and> ''styler-highlighted''
       \<in> set (writtenClasses exampleSettings (Some exampleMarkedSpan) Bold None True)
   \<and> ''styler-circled''
       \<in> set (writtenClasses exampleSettings (Some exampleMarkedSpan) Bold None True)
   \<and> ''styler-colored'' \<in> set (writtenClasses_earlier (Some exampleMarkedSpan) Bold None True)
   \<and> ''styler-highlighted''
       \<in> set (writtenClasses_earlier (Some exampleMarkedSpan) Bold None True)
   \<and> \<not> falsyAt (writtenVariables exampleSettings (Some exampleMarkedSpan) Bold None True)
         ''--styler-text-color''
   \<and> \<not> falsyAt (writtenVariables exampleSettings (Some exampleMarkedSpan) Bold None True)
         ''--styler-highlight-color''
   \<and> \<not> falsyAt (writtenVariables exampleSettings (Some exampleMarkedSpan) Bold None True)
         ''--styler-circle-color''
   \<and> \<not> falsyAt (writtenVariables_earlier (Some exampleMarkedSpan) Bold None True)
         ''--styler-text-color''
   \<and> \<not> falsyAt (writtenVariables_earlier (Some exampleMarkedSpan) Bold None True)
         ''--styler-highlight-color''"
proof -
  have m:
    "''styler-colored'' \<in> set (writtenClasses exampleSettings (Some exampleMarkedSpan) Bold None True)"
    "''styler-highlighted''
       \<in> set (writtenClasses exampleSettings (Some exampleMarkedSpan) Bold None True)"
    "''styler-circled''
       \<in> set (writtenClasses exampleSettings (Some exampleMarkedSpan) Bold None True)"
    "''styler-colored'' \<in> set (writtenClasses_earlier (Some exampleMarkedSpan) Bold None True)"
    "''styler-highlighted''
       \<in> set (writtenClasses_earlier (Some exampleMarkedSpan) Bold None True)"
    by code_simp+
  show ?thesis
    using m C4_marker_backed [of exampleSettings "''X''" "Some exampleMarkedSpan" Bold None True]
    by blast
qed

section \<open>Classes and declarations from other sources\<close>

lemma recognizedClasses_eq:
  "recognizedClasses
     = [''styler-bold'', ''styler-italic'', ''styler-underline'', ''styler-strike'',
        ''styler-colored'', ''styler-highlighted'', ''styler-colored-underline'',
        ''styler-circled'']"
  by (simp add: recognizedClasses_def StyleClasses_defs)

lemma targetClassOf_recognized: "targetClassOf styleType = Some c \<Longrightarrow> c \<in> set recognizedClasses"
  by (cases styleType) (auto simp: targetClassOf_simps recognizedClasses_eq)

text \<open>Only keys that start with \<open>--styler-\<close> are read from a tag, written or kept.\<close>

lemma onlyStylerKeys_assign:
  "onlyStylerKeys (assign k x m) = (startsWith k ''--styler-'' \<and> onlyStylerKeys m)"
proof (induction m)
  case Nil
  show ?case by (simp add: onlyStylerKeys_def)
next
  case (Cons e m)
  then show ?case by (cases e; cases "fst e = k") (auto simp: onlyStylerKeys_def)
qed

lemma onlyStylerKeys_delete: "onlyStylerKeys m \<Longrightarrow> onlyStylerKeys (delete k m)"
  by (simp add: onlyStylerKeys_def delete_def list_all_iff)

lemma readCssVariables_fold_keys:
  assumes "onlyStylerKeys acc"
  shows "onlyStylerKeys
           (fold (\<lambda>part vars.
                    (case split CHR '':'' part of
                       [] \<Rightarrow> vars
                     | key # rest \<Rightarrow>
                         (let trimmedKey = trim key
                          in if startsWith trimmedKey ''--styler-''
                             then assign trimmedKey
                                    (case rest of [] \<Rightarrow> [] | val # _ \<Rightarrow> trim val) vars
                             else vars)))
              parts acc)"
  using assms
proof (induction parts arbitrary: acc)
  case Nil
  then show ?case by simp
next
  case (Cons part parts)
  show ?case
    unfolding fold_Cons comp_def
    by (rule Cons.IH) (use Cons.prems in \<open>simp add: Let_def onlyStylerKeys_assign split: list.splits\<close>)
qed

lemma readCssVariables_keys:
  "onlyStylerKeys (readCssVariables spanInfo)"
proof -
  have e: "onlyStylerKeys []"
    by (simp add: onlyStylerKeys_def)
  show ?thesis
    unfolding readCssVariables_def
    using e readCssVariables_fold_keys [OF e] by (simp split: option.splits)
qed

lemma applyStyle_keys:
  assumes "onlyStylerKeys (snd st)"
  shows "onlyStylerKeys (snd (applyStyle cfg styleType v st))"
  using assms
  by (simp add: applyStyle_def Let_def onlyStylerKeys_assign onlyStylerKeys_delete)

lemma removeStyle_keys:
  assumes "onlyStylerKeys (snd st)"
  shows "onlyStylerKeys (snd (removeStyle styleType st))"
  using assms
  by (simp add: removeStyle_def Let_def onlyStylerKeys_delete)

lemma cleanup_keys:
  assumes "onlyStylerKeys (snd st)"
  shows "onlyStylerKeys (snd (cleanup st))"
proof -
  have step:
    "onlyStylerKeys (snd x) \<Longrightarrow> onlyStylerKeys (snd (cleanupNoUnderlineClass x))"
    "onlyStylerKeys (snd x) \<Longrightarrow> onlyStylerKeys (snd (cleanupColoredVars x))"
    "onlyStylerKeys (snd x) \<Longrightarrow> onlyStylerKeys (snd (cleanupColoredMarker x))"
    "onlyStylerKeys (snd x) \<Longrightarrow> onlyStylerKeys (snd (cleanupHighlightedMarker x))"
    "onlyStylerKeys (snd x) \<Longrightarrow> onlyStylerKeys (snd (cleanupColoredUnderlineMarker x))"
    "onlyStylerKeys (snd x) \<Longrightarrow> onlyStylerKeys (snd (cleanupCircledMarker x))" for x
    by (simp_all add: cleanup_steps Let_def onlyStylerKeys_delete)
  show ?thesis
    unfolding cleanup_def by (intro step assms)
qed

lemma writtenClasses_keeps_class:
  assumes "c \<in> set (fst (initialState spanInfo))" and "c \<noteq> []" and "c \<notin> set recognizedClasses"
  shows "c \<in> set (writtenClasses cfg spanInfo styleType v shouldApply)"
proof -
  define st where
    "st = (if shouldApply then applyStyle cfg styleType v (initialState spanInfo)
           else removeStyle styleType (initialState spanInfo))"
  have r: "reconcile cfg spanInfo styleType v shouldApply = cleanup st"
    by (simp add: reconcile_eq st_def)
  from assms(3) have other:
    "c \<noteq> ''styler-underline''" "c \<noteq> ''styler-colored-underline''" "c \<noteq> ''styler-colored''"
    "c \<noteq> ''styler-highlighted''" "c \<noteq> ''styler-circled''"
    by (auto simp: recognizedClasses_eq)
  from assms(3) have target: "targetClassOf styleType \<noteq> Some c"
    using targetClassOf_recognized by blast
  from assms(1) have "c \<in> set (fst st)"
    unfolding st_def
    by (simp add: applyStyle_keeps_class removeStyle_keeps_class other target)
  then have "c \<in> set (fst (cleanup st))"
    by (rule cleanup_keeps_class) (rule other)+
  with assms(2) show ?thesis
    by (simp add: writtenClasses_def r set_uniqueClassesOf)
qed

lemma writtenVariables_keys: "onlyStylerKeys (writtenVariables cfg spanInfo styleType v shouldApply)"
proof -
  have "onlyStylerKeys (snd (initialState spanInfo))"
    using readCssVariables_keys by (simp add: initialState_def)
  then have "onlyStylerKeys
               (snd (if shouldApply then applyStyle cfg styleType v (initialState spanInfo)
                     else removeStyle styleType (initialState spanInfo)))"
    by (simp add: applyStyle_keys removeStyle_keys)
  then show ?thesis
    unfolding writtenVariables_def reconcile_eq by (rule cleanup_keys)
qed

text \<open>
  Claim C5, as the code has it. A toggle on a selection that is not empty replaces it by its
  segments in order, each reconciled; it has no other outcome. For a segment under a span, a
  class that \<open>extractClasses\<close> read from the opening tag and that is not one of the eight
  class names of the style manager is in the class attribute of the wrapper written around
  the segment's text, as \<open>extractClasses\<close> reads it back. The opening tag written is made of
  that class attribute and a style attribute only, and the style attribute holds only
  variables whose key starts with \<open>--styler-\<close>: every other declaration of the opening
  tag is left out, as in \<open>C5_counterexample\<close>, which also shows a wrapper around no text
  and a class attribute in single quotes, both of which lose the class.
\<close>

theorem C5_classes_kept_declarations_filtered:
  assumes "seg \<in> set (parseSelection selectedText)"
    and "span seg = Some sp"
    and "c \<in> set (classList sp)"
    and "c \<notin> set recognizedClasses"
  shows "toggleStyle cfg selectedText styleType v
           = Replaced (concat (map (toggledSegment cfg (parseSelection selectedText) styleType v)
                                 (parseSelection selectedText)))
         \<and> toggledSegment cfg (parseSelection selectedText) styleType v seg
           = writtenTag cfg (span seg) styleType v
               (shouldApplyFor (parseSelection selectedText) styleType v)
             @ text' seg @ ''</span>''
         \<and> writtenTag cfg (span seg) styleType v
               (shouldApplyFor (parseSelection selectedText) styleType v)
           = ''<span class='' @ [CHR 0x22]
             @ join '' ''
                 (writtenClasses cfg (span seg) styleType v
                    (shouldApplyFor (parseSelection selectedText) styleType v))
             @ [CHR 0x22]
             @ (if styleAttrValueOf
                     (writtenVariables cfg (span seg) styleType v
                        (shouldApplyFor (parseSelection selectedText) styleType v)) = []
                then []
                else '' style='' @ [CHR 0x22]
                     @ styleAttrValueOf
                         (writtenVariables cfg (span seg) styleType v
                            (shouldApplyFor (parseSelection selectedText) styleType v))
                     @ [CHR 0x22])
             @ ''>''
         \<and> c \<in> set (extractClasses
                       (writtenTag cfg (span seg) styleType v
                          (shouldApplyFor (parseSelection selectedText) styleType v)))
         \<and> onlyStylerKeys
             (writtenVariables cfg (span seg) styleType v
                (shouldApplyFor (parseSelection selectedText) styleType v))"
proof -
  define d where "d = shouldApplyFor (parseSelection selectedText) styleType v"
  from assms(1) have ne0: "selectedText \<noteq> []"
    by (auto simp: parseSelection_Nil)
  from assms(1) have p: "parsedSpan (span seg)"
    by (rule parseSelection_spans)
  from assms(2,3) have i: "c \<in> set (fst (initialState (span seg)))"
    by (simp add: initialState_def)
  with p have "classToken c"
    by (rule parsedSpan_tokens)
  then have "c \<noteq> []"
    by (simp add: classToken_def)
  with i assms(4) have w: "c \<in> set (writtenClasses cfg (span seg) styleType v d)"
    by (intro writtenClasses_keeps_class)
  then have ne: "writtenClasses cfg (span seg) styleType v d \<noteq> []"
    by auto
  from w writtenTag_classes [OF p ne]
  have rb: "c \<in> set (extractClasses (writtenTag cfg (span seg) styleType v d))"
    by simp
  have out: "toggledSegment cfg (parseSelection selectedText) styleType v seg
             = writtenTag cfg (span seg) styleType v d @ text' seg @ ''</span>''"
    using ne by (simp add: toggledSegment_def applyModificationToSegment_written d_def)
  have tag: "writtenTag cfg (span seg) styleType v d
             = ''<span class='' @ [CHR 0x22]
               @ join '' '' (writtenClasses cfg (span seg) styleType v d) @ [CHR 0x22]
               @ (if styleAttrValueOf (writtenVariables cfg (span seg) styleType v d) = []
                  then []
                  else '' style='' @ [CHR 0x22]
                       @ styleAttrValueOf (writtenVariables cfg (span seg) styleType v d)
                       @ [CHR 0x22])
               @ ''>''"
    using ne by (simp add: writtenTag_def openingTagOf_def)
  show ?thesis
    unfolding d_def [symmetric]
    using toggleStyle_segments [OF ne0, of cfg styleType v] out rb tag
      writtenVariables_keys [of cfg "span seg" styleType v d]
    by (intro conjI) (simp_all add: d_def)
qed

theorem C5_counterexample:
  \<open>toggleStyle exampleSettings ''<span class="foo" style="color: red;">X</span>'' Bold None
     = Replaced ''<span class="foo styler-bold">X</span>''
   \<and> toggleStyle exampleSettings ''<span class="foo"></span>abc'' Bold None
     = Replaced ''<span class="styler-bold">abc</span>''
   \<and> toggleStyle exampleSettings ''<span class='foo'>x</span>'' Bold None
     = Replaced ''<span class="styler-bold">x</span>''\<close>
  by code_simp

theorem C5_witness:
  \<open>hd (parseSelection ''<span class="foo" style="color: red;">X</span>'')
     \<in> set (parseSelection ''<span class="foo" style="color: red;">X</span>'')
   \<and> span (hd (parseSelection ''<span class="foo" style="color: red;">X</span>''))
     = Some (spanOfTag ''<span class="foo" style="color: red;">'' 0)
   \<and> ''foo'' \<in> set (classList (spanOfTag ''<span class="foo" style="color: red;">'' 0))
   \<and> ''foo'' \<notin> set recognizedClasses
   \<and> ''foo''
     \<in> set (extractClasses
              (writtenTag exampleSettings
                 (span (hd (parseSelection ''<span class="foo" style="color: red;">X</span>'')))
                 Bold None
                 (shouldApplyFor (parseSelection ''<span class="foo" style="color: red;">X</span>'')
                    Bold None)))
   \<and> onlyStylerKeys
       (writtenVariables exampleSettings
          (span (hd (parseSelection ''<span class="foo" style="color: red;">X</span>'')))
          Bold None
          (shouldApplyFor (parseSelection ''<span class="foo" style="color: red;">X</span>'')
             Bold None))\<close>
proof -
  have m: \<open>hd (parseSelection ''<span class="foo" style="color: red;">X</span>'')
            \<in> set (parseSelection ''<span class="foo" style="color: red;">X</span>'')\<close>
    by code_simp
  have s: \<open>span (hd (parseSelection ''<span class="foo" style="color: red;">X</span>''))
            = Some (spanOfTag ''<span class="foo" style="color: red;">'' 0)\<close>
    by code_simp
  have a: \<open>''foo'' \<in> set (classList (spanOfTag ''<span class="foo" style="color: red;">'' 0))\<close>
    by code_simp
  have c: "''foo'' \<notin> set recognizedClasses"
    by (simp add: recognizedClasses_eq)
  show ?thesis
    using m s a c
      C5_classes_kept_declarations_filtered [OF m s a c, of exampleSettings Bold None]
    by blast
qed

section \<open>Toggling on an empty selection\<close>












section \<open>Removing all styling\<close>

lemma fold_append_texts:
  "fold (\<lambda>segment modifiedContent. modifiedContent @ text' segment) segments acc
     = acc @ concat (map text' segments)"
  by (induction segments arbitrary: acc) auto

lemma removeAllStyling_concat: "removeAllStyling s = concat (map text' (parseSelection s))"
  by (simp add: removeAllStyling_def fold_append_texts)

lemma parseSelection_no_tag:
  assumes "regexExec tagAt s = None"
  shows "parseSelection s
         = (if s = [] then []
            else [\<lparr>text' = s, start = 0, end' = length s, span = None\<rparr>])"
  using assms
  by (simp add: parseSelection_def parseLoop.simps [of s 0] substring_def)

lemma withoutTags_no_tag: "regexExec tagAt s = None \<Longrightarrow> withoutTags s = s"
  by (simp add: withoutTags.simps [of s])

lemma withoutTags_Nil: "withoutTags [] = []"
  by (simp add: withoutTags_no_tag tagAt_def)

lemma withoutTags_tag:
  "regexExec tagAt s = Some (i, n) \<Longrightarrow> withoutTags s = take i s @ withoutTags (drop (i + n) s)"
  by (simp add: withoutTags.simps [of s])

lemma withoutTags_length: "length (withoutTags s) \<le> length s"
proof (induction "length s" arbitrary: s rule: less_induct)
  case less
  show ?case
  proof (cases "regexExec tagAt s")
    case None
    then show ?thesis by (simp add: withoutTags_no_tag)
  next
    case (Some m)
    obtain i n where m: "m = (i, n)" by (cases m)
    from Some m regexExec_tagAt_bounds [of s i n] have b: "0 < n" "i + n \<le> length s"
      by simp_all
    then have "length (drop (i + n) s) < length s" by simp
    from less.hyps [OF this] b show ?thesis
      using withoutTags_tag [of s i n] Some m by simp
  qed
qed

lemma withoutTags_shorter:
  assumes "regexExec tagAt s = Some (i, n)"
  shows "length (withoutTags s) < length s"
proof -
  from regexExec_tagAt_bounds [OF assms] have b: "0 < n" "i + n \<le> length s"
    by simp_all
  with withoutTags_length [of "drop (i + n) s"] show ?thesis
    by (simp add: withoutTags_tag [OF assms])
qed

text \<open>
  The texts of the segments, joined, are the selection from \<open>currentIndex\<close> on with every
  span tag left out.
\<close>

lemma parseLoop_withoutTags:
  "concat (map text' (parseLoop s i cur segs))
     = concat (map text' segs) @ withoutTags (drop i s)"
proof (induction "length s - i" arbitrary: i cur segs rule: less_induct)
  case less
  show ?case
  proof (cases "i < length s")
    case False
    then show ?thesis
      by (simp add: parseLoop.simps [of s i] withoutTags_Nil)
  next
    case True
    show ?thesis
    proof (cases "regexExec tagAt (drop i s)")
      case None
      with True show ?thesis
        by (simp add: parseLoop.simps [of s i] withoutTags_no_tag substring_def)
    next
      case (Some m)
      obtain tagStart n where m: "m = (tagStart, n)" by (cases m)
      from Some m regexExec_tagAt_bounds [of "drop i s" tagStart n]
      have b: "0 < n" "tagStart + n \<le> length s - i" by simp_all
      then have len: "length (take n (drop tagStart (drop i s))) = n" by simp
      have step: "parseLoop s i cur segs
                  = parseLoop s (i + tagStart + n)
                      (if startsWith (take n (drop tagStart (drop i s))) ''</span'' then None
                       else Some (spanOfTag (take n (drop tagStart (drop i s))) (i + tagStart)))
                      (if i + tagStart > i
                       then segs @ [\<lparr>text' = substring s i (i + tagStart), start = i,
                                     end' = i + tagStart, span = cur\<rparr>]
                       else segs)"
        using True Some m len
        by (subst parseLoop.simps) (simp add: Let_def)
      have "length s - (i + tagStart + n) < length s - i"
        using True b by simp
      note ih = less.hyps [OF this]
      have r: "withoutTags (drop i s)
               = take tagStart (drop i s) @ withoutTags (drop (i + tagStart + n) s)"
        using Some m withoutTags_tag [of "drop i s" tagStart n]
        by (simp add: add.commute add.left_commute)
      show ?thesis
        unfolding step ih r
        by (simp add: substring_def)
    qed
  qed
qed

lemma parseLoop_texts_nonempty:
  assumes "\<forall>seg\<in>set segs. text' seg \<noteq> []"
  shows "\<forall>seg\<in>set (parseLoop s i cur segs). text' seg \<noteq> []"
  using assms
proof (induction "length s - i" arbitrary: i cur segs rule: less_induct)
  case less
  show ?case
  proof (cases "i < length s")
    case False
    with less.prems show ?thesis
      by (simp add: parseLoop.simps [of s i])
  next
    case True
    show ?thesis
    proof (cases "regexExec tagAt (drop i s)")
      case None
      with True less.prems show ?thesis
        by (simp add: parseLoop.simps [of s i] Let_def substring_def)
    next
      case (Some m)
      obtain tagStart n where m: "m = (tagStart, n)" by (cases m)
      from Some m regexExec_tagAt_bounds [of "drop i s" tagStart n]
      have b: "0 < n" "tagStart + n \<le> length s - i" by simp_all
      then have len: "length (take n (drop tagStart (drop i s))) = n" by simp
      have step: "parseLoop s i cur segs
                  = parseLoop s (i + tagStart + n)
                      (if startsWith (take n (drop tagStart (drop i s))) ''</span'' then None
                       else Some (spanOfTag (take n (drop tagStart (drop i s))) (i + tagStart)))
                      (if i + tagStart > i
                       then segs @ [\<lparr>text' = substring s i (i + tagStart), start = i,
                                     end' = i + tagStart, span = cur\<rparr>]
                       else segs)"
        using True Some m len
        by (subst parseLoop.simps) (simp add: Let_def)
      have "length s - (i + tagStart + n) < length s - i"
        using True b by simp
      note ih = less.hyps [OF this]
      show ?thesis
        unfolding step
      proof (rule ih)
        show "\<forall>seg\<in>set (if i + tagStart > i
                         then segs @ [\<lparr>text' = substring s i (i + tagStart), start = i,
                                       end' = i + tagStart, span = cur\<rparr>]
                         else segs). text' seg \<noteq> []"
          using less.prems True b by (auto simp: substring_def)
      qed
    qed
  qed
qed

text \<open>
  The fallback of \<open>parseSelection\<close> is taken exactly on a selection that is not empty and
  holds nothing but span tags: a selection with some text outside its tags, plain text
  included, has a segment already.
\<close>

lemma fallback_on_tags_only:
  "(parseLoop s 0 None [] = [] \<and> length s > 0) = (s \<noteq> [] \<and> withoutTags s = [])"
proof -
  have t: "concat (map text' (parseLoop s 0 None [])) = withoutTags s"
    using parseLoop_withoutTags [of s 0 None "[]"] by simp
  have n: "\<forall>seg\<in>set (parseLoop s 0 None []). text' seg \<noteq> []"
    by (rule parseLoop_texts_nonempty) simp
  show ?thesis
  proof (cases "parseLoop s 0 None []")
    case Nil
    with t show ?thesis by auto
  next
    case (Cons seg segs)
    with n have "text' seg \<noteq> []" by simp
    with t Cons show ?thesis by auto
  qed
qed

lemma removeAllStyling_withoutTags:
  assumes "s = [] \<or> withoutTags s \<noteq> []"
  shows "removeAllStyling s = withoutTags s"
proof -
  have t: "concat (map text' (parseLoop s 0 None [])) = withoutTags s"
    using parseLoop_withoutTags [of s 0 None "[]"] by simp
  show ?thesis
  proof (cases "parseLoop s 0 None [] = [] \<and> length s > 0")
    case True
    with t have "withoutTags s = []" by simp
    with assms True show ?thesis by simp
  next
    case False
    then have "parseSelection s = parseLoop s 0 None []"
      by (auto simp: parseSelection_def Let_def)
    with t show ?thesis
      by (simp add: removeAllStyling_concat)
  qed
qed

text \<open>
  Claim C9, as the code has it. On a selection that is empty or keeps some text once its
  span tags are left out, remove-all-styling gives the texts of the segments joined in
  order, which is the selection with every span tag discarded (\<open>withoutTags\<close>). It is not
  idempotent on every selection: when the first result is empty or keeps some text without
  its span tags, applying it again changes nothing exactly when the first result holds no
  span tag. Leaving a tag out can bring the pieces of another tag together, as in
  \<open>C9_counterexample\<close>, which also shows what the statement leaves out: a selection made of
  span tags only, where the fallback of the segmenter is taken.
\<close>

theorem C9_remove_all:
  "(s = [] \<or> withoutTags s \<noteq> [] \<longrightarrow> removeAllStyling s = withoutTags s)
   \<and> (removeAllStyling s = [] \<or> withoutTags (removeAllStyling s) \<noteq> []
      \<longrightarrow> (removeAllStyling (removeAllStyling s) = removeAllStyling s)
          = (regexExec tagAt (removeAllStyling s) = None))"
proof (intro conjI impI)
  assume "s = [] \<or> withoutTags s \<noteq> []"
  then show "removeAllStyling s = withoutTags s"
    by (rule removeAllStyling_withoutTags)
next
  define r where "r = removeAllStyling s"
  assume "removeAllStyling s = [] \<or> withoutTags (removeAllStyling s) \<noteq> []"
  then have "r = [] \<or> withoutTags r \<noteq> []"
    by (simp add: r_def)
  then have w: "removeAllStyling r = withoutTags r"
    by (rule removeAllStyling_withoutTags)
  have "(withoutTags r = r) = (regexExec tagAt r = None)"
  proof (cases "regexExec tagAt r")
    case None
    then show ?thesis by (simp add: withoutTags_no_tag)
  next
    case (Some m)
    obtain i n where "m = (i, n)" by (cases m)
    with Some withoutTags_shorter [of r i n] show ?thesis by auto
  qed
  with w show "(removeAllStyling (removeAllStyling s) = removeAllStyling s)
               = (regexExec tagAt (removeAllStyling s) = None)"
    by (simp add: r_def)
qed

theorem C9_counterexample:
  \<open>withoutTags ''<sp<span>an>x'' = ''<span>x''
   \<and> removeAllStyling ''<sp<span>an>x'' = ''<span>x''
   \<and> removeAllStyling (removeAllStyling ''<sp<span>an>x'') = ''x''
   \<and> withoutTags ''<span></span>'' = []
   \<and> removeAllStyling ''<span></span>'' = ''<span></span>''\<close>
  by code_simp

theorem C9_witness:
  \<open>(''a<span class="styler-bold">b</span>c'' = []
      \<or> withoutTags ''a<span class="styler-bold">b</span>c'' \<noteq> [])
   \<and> removeAllStyling ''a<span class="styler-bold">b</span>c''
     = withoutTags ''a<span class="styler-bold">b</span>c''
   \<and> (removeAllStyling ''a<span class="styler-bold">b</span>c'' = []
      \<or> withoutTags (removeAllStyling ''a<span class="styler-bold">b</span>c'') \<noteq> [])
   \<and> regexExec tagAt (removeAllStyling ''a<span class="styler-bold">b</span>c'') = None
   \<and> removeAllStyling (removeAllStyling ''a<span class="styler-bold">b</span>c'')
     = removeAllStyling ''a<span class="styler-bold">b</span>c''\<close>
proof -
  have a: \<open>''a<span class="styler-bold">b</span>c'' = []
            \<or> withoutTags ''a<span class="styler-bold">b</span>c'' \<noteq> []\<close>
    by code_simp
  have b: \<open>removeAllStyling ''a<span class="styler-bold">b</span>c'' = []
            \<or> withoutTags (removeAllStyling ''a<span class="styler-bold">b</span>c'') \<noteq> []\<close>
    by code_simp
  have c: \<open>regexExec tagAt (removeAllStyling ''a<span class="styler-bold">b</span>c'') = None\<close>
    by code_simp
  show ?thesis
    using a b c C9_remove_all [of \<open>''a<span class="styler-bold">b</span>c''\<close>] by blast
qed

section \<open>The two versions of remove-all-styling\<close>

lemma startsWithCI_append:
  "startsWithCI s (p @ q) = (startsWithCI s p \<and> startsWithCI (drop (length p) s) q)"
proof (induction p arbitrary: s)
  case Nil
  show ?case by simp
next
  case (Cons a p)
  show ?case by (cases s) (simp_all add: Cons.IH)
qed

lemma toLowerChar_gt: "(toLowerChar c = CHR ''>'') = (c = CHR ''>'')"
  by (cases c) auto

lemma startsWithCI_closing:
  "startsWithCI s ''</span>''
     = (startsWithCI s ''</span'' \<and> (\<exists>t. drop 6 s = CHR ''>'' # t))"
proof -
  have l: "length ''</span'' = 6" and a: "''</span'' @ ''>'' = ''</span>''"
    by simp_all
  have "startsWithCI s (''</span'' @ ''>'')
        = (startsWithCI s ''</span'' \<and> startsWithCI (drop (length ''</span'') s) ''>'')"
    by (rule startsWithCI_append)
  then have "startsWithCI s ''</span>''
             = (startsWithCI s ''</span'' \<and> startsWithCI (drop 6 s) ''>'')"
    unfolding l a .
  moreover have "startsWithCI t ''>'' = (\<exists>u. t = CHR ''>'' # u)" for t
    by (cases t) (simp_all add: toLowerChar_gt)
  ultimately show ?thesis by (simp only:)
qed

lemma startsWithCI_span_kinds:
  "startsWithCI s ''</span'' \<Longrightarrow> \<not> startsWithCI s ''<span''"
proof (cases s)
  case Nil
  then show "startsWithCI s ''</span'' \<Longrightarrow> \<not> startsWithCI s ''<span''" by simp
next
  case (Cons a t)
  then show "startsWithCI s ''</span'' \<Longrightarrow> \<not> startsWithCI s ''<span''"
    by (cases t) auto
qed

lemma regexExec_Some_iff:
  "(regexExec m s = Some (i, r))
     = (i \<le> length s \<and> m (drop i s) = Some r \<and> (\<forall>j<i. m (drop j s) = None))"
proof (induction s arbitrary: i)
  case Nil
  show ?case by (auto split: option.splits)
next
  case (Cons c cs)
  show ?case
  proof (cases "m (c # cs)")
    case (Some x)
    then show ?thesis
      by (cases i) auto
  next
    case None
    show ?thesis
    proof (cases i)
      case 0
      with None show ?thesis by (auto split: option.splits)
    next
      case (Suc k)
      have "(\<forall>j<Suc k. m (drop j (c # cs)) = None) = (\<forall>j<k. m (drop j cs) = None)"
        using None by (auto simp: less_Suc_eq_0_disj)
      with None Suc Cons.IH [of k] show ?thesis
        by (auto split: option.splits)
    qed
  qed
qed

lemma regexExec_None_iff:
  "(regexExec m s = None) = (\<forall>j\<le>length s. m (drop j s) = None)"
proof (induction s)
  case Nil
  show ?case by (auto split: option.splits)
next
  case (Cons c cs)
  have "(\<forall>j\<le>length (c # cs). m (drop j (c # cs)) = None)
        = (m (c # cs) = None \<and> (\<forall>j\<le>length cs. m (drop j cs) = None))"
    (is "?L = ?R")
  proof
    assume l: ?L
    then have "m (drop 0 (c # cs)) = None" by blast
    moreover have "m (drop j cs) = None" if "j \<le> length cs" for j
    proof -
      from that have "Suc j \<le> length (c # cs)" by simp
      with l have "m (drop (Suc j) (c # cs)) = None" by blast
      then show ?thesis by simp
    qed
    ultimately show ?R by simp
  next
    assume r: ?R
    show ?L
    proof (intro allI impI)
      fix j
      assume "j \<le> length (c # cs)"
      with r show "m (drop j (c # cs)) = None" by (cases j) auto
    qed
  qed
  with Cons show ?case
    by (auto split: option.splits)
qed

lemma spanTagAt_tagAt: "spanTagAt t = Some n \<Longrightarrow> tagAt t = Some n"
proof (cases "startsWithCI t ''<span'' \<and> CHR ''>'' \<in> set (drop 5 t)")
  case True
  assume "spanTagAt t = Some n"
  with True show ?thesis
    using startsWithCI_span_kinds [of t]
    by (auto simp: spanTagAt_def tagAt_def)
next
  case False
  assume a: "spanTagAt t = Some n"
  with False have c: "startsWithCI t ''</span>''" and n: "n = 7"
    by (auto simp: spanTagAt_def split: if_splits)
  from c obtain u where "startsWithCI t ''</span''" "drop 6 t = CHR ''>'' # u"
    by (auto simp: startsWithCI_closing)
  with n show ?thesis
    by (simp add: tagAt_def)
qed

lemma tagAt_spanTagAt:
  assumes "tagAt t = Some n" and "startsWithCI t ''</span'' \<longrightarrow> n = 7"
  shows "spanTagAt t = Some n"
proof (cases "startsWithCI t ''</span''")
  case True
  with assms have n: "n = 7" and g: "CHR ''>'' \<in> set (drop 6 t)"
    and l: "6 + length (takeWhile (\<lambda>c. c \<noteq> CHR ''>'') (drop 6 t)) + 1 = 7"
    by (auto simp: tagAt_def split: if_splits)
  from l have "takeWhile (\<lambda>c. c \<noteq> CHR ''>'') (drop 6 t) = []" by simp
  with g obtain u where "drop 6 t = CHR ''>'' # u"
    by (cases "drop 6 t") (auto split: if_splits)
  with True have "startsWithCI t ''</span>''"
    by (auto simp: startsWithCI_closing)
  with True n show ?thesis
    using startsWithCI_span_kinds [of t] by (simp add: spanTagAt_def)
next
  case False
  with assms(1) show ?thesis
    by (auto simp: tagAt_def spanTagAt_def startsWithCI_closing split: if_splits)
qed

text \<open>
  Every match of the expression of the first style manager is a match of the expression of
  the segmenter, of the same length; so the two scans find the same first tag when that tag
  is not a closing tag with something between \<open></span\<close> and \<open>>\<close>.
\<close>

lemma scan_agree_None: "regexExec tagAt s = None \<Longrightarrow> regexExec spanTagAt s = None"
proof -
  assume "regexExec tagAt s = None"
  then have "\<forall>j\<le>length s. tagAt (drop j s) = None"
    by (simp add: regexExec_None_iff)
  then have "\<forall>j\<le>length s. spanTagAt (drop j s) = None"
    using spanTagAt_tagAt by (metis option.exhaust option.distinct(1))
  then show ?thesis
    by (simp add: regexExec_None_iff)
qed

lemma scan_agree_Some:
  assumes "regexExec tagAt s = Some (i, n)"
    and "startsWithCI (drop i s) ''</span'' \<longrightarrow> n = 7"
  shows "regexExec spanTagAt s = Some (i, n)"
proof -
  from assms(1) have a: "i \<le> length s" "tagAt (drop i s) = Some n"
    "\<forall>j<i. tagAt (drop j s) = None"
    by (simp_all add: regexExec_Some_iff)
  from a(3) have "\<forall>j<i. spanTagAt (drop j s) = None"
    using spanTagAt_tagAt by (metis option.exhaust option.distinct(1))
  moreover from a(2) assms(2) have "spanTagAt (drop i s) = Some n"
    by (rule tagAt_spanTagAt)
  ultimately show ?thesis
    using a(1) by (simp add: regexExec_Some_iff)
qed

lemma closingTagsFoundPlain_replace:
  "closingTagsFoundPlain s \<Longrightarrow> replaceSpanTags s = withoutTags s"
proof (induction "length s" arbitrary: s rule: less_induct)
  case less
  show ?case
  proof (cases "regexExec tagAt s")
    case None
    then show ?thesis
      by (simp add: withoutTags_no_tag replaceSpanTags.simps [of s] scan_agree_None)
  next
    case (Some m)
    obtain i n where m: "m = (i, n)" by (cases m)
    from less.prems Some m have p: "startsWithCI (drop i s) ''</span'' \<longrightarrow> n = 7"
      and rest: "closingTagsFoundPlain (drop (i + n) s)"
      by (simp_all add: closingTagsFoundPlain.simps [of s])
    from Some m regexExec_tagAt_bounds [of s i n] have "length (drop (i + n) s) < length s"
      by auto
    from less.hyps [OF this rest] scan_agree_Some [OF Some [unfolded m] p] Some m
    show ?thesis
      by (simp add: withoutTags_tag replaceSpanTags.simps [of s])
  qed
qed

text \<open>
  Claim C10, as the code has it. The two versions of remove-all-styling give the same text
  on a selection in which every closing tag that the segmenter finds is plain
  (\<open>closingTagsFoundPlain\<close>) and that is empty or has some text outside its tags. They
  differ on a closing tag with anything between \<open></span\<close> and \<open>>\<close>, which only the
  segmenter takes for a tag, and on a selection made of tags only, which the segmenter gives
  back unchanged: \<open>C10_counterexample\<close>.
\<close>

theorem C10_remove_all_variants:
  assumes "closingTagsFoundPlain s" and "s = [] \<or> removeAllStyling_regex s \<noteq> []"
  shows "removeAllStyling s = removeAllStyling_regex s"
proof -
  from assms(1) have e: "removeAllStyling_regex s = withoutTags s"
    by (simp add: removeAllStyling_regex_def closingTagsFoundPlain_replace)
  with assms(2) have "s = [] \<or> withoutTags s \<noteq> []"
    by simp
  then have "removeAllStyling s = withoutTags s"
    by (rule removeAllStyling_withoutTags)
  with e show ?thesis by simp
qed

theorem C10_counterexample:
  \<open>removeAllStyling ''a</span >b'' = ''ab''
   \<and> removeAllStyling_regex ''a</span >b'' = ''a</span >b''
   \<and> removeAllStyling ''<span></span>'' = ''<span></span>''
   \<and> removeAllStyling_regex ''<span></span>'' = []\<close>
  by code_simp

theorem C10_witness:
  \<open>closingTagsFoundPlain ''a<span class="styler-bold">b</span>c''
   \<and> removeAllStyling_regex ''a<span class="styler-bold">b</span>c'' = ''abc''
   \<and> removeAllStyling ''a<span class="styler-bold">b</span>c''
     = removeAllStyling_regex ''a<span class="styler-bold">b</span>c''\<close>
proof -
  have p: \<open>closingTagsFoundPlain ''a<span class="styler-bold">b</span>c''\<close>
    by code_simp
  have r: \<open>removeAllStyling_regex ''a<span class="styler-bold">b</span>c'' = ''abc''\<close>
    by code_simp
  then have n: \<open>''a<span class="styler-bold">b</span>c'' = []
                \<or> removeAllStyling_regex ''a<span class="styler-bold">b</span>c'' \<noteq> []\<close>
    by simp
  show ?thesis
    using p r C10_remove_all_variants [OF p n] by blast
qed

lemma remove_all_variants_inner_fragment:
  \<open>closingTagsFoundPlain ''<span title="</span x">a</span>''
   \<and> removeAllStyling ''<span title="</span x">a</span>'' = ''a''
   \<and> removeAllStyling_regex ''<span title="</span x">a</span>'' = ''a''\<close>
  by code_simp

section \<open>Toggling twice\<close>

lemma tagAt_no_fragment:
  "\<not> startsWithCI s ''<span'' \<Longrightarrow> \<not> startsWithCI s ''</span'' \<Longrightarrow> tagAt s = None"
  by (simp add: tagAt_def)

lemma regexExec_no_fragment: "\<not> hasSpanFragment t \<Longrightarrow> regexExec tagAt t = None"
  by (induction t) (simp_all add: tagAt_no_fragment tagAt_def)

text \<open>
  A literal at the head of \<open>t @ u\<close> lies in \<open>t\<close>, or \<open>t\<close> is a proper part of it and the
  rest of it is at the head of \<open>u\<close>.
\<close>

lemma startsWithCI_append_left:
  "startsWithCI (t @ u) p
     \<Longrightarrow> startsWithCI t p \<or> (length t < length p \<and> startsWithCI u (drop (length t) p))"
proof (induction t arbitrary: p)
  case Nil
  then show ?case by (cases p) simp_all
next
  case (Cons c cs)
  show ?case
  proof (cases p)
    case Nil
    then show ?thesis by simp
  next
    case (Cons a q)
    with Cons.prems have "toLowerChar c = a" "startsWithCI (cs @ u) q" by simp_all
    with Cons.IH [of q] Cons show ?thesis by auto
  qed
qed

lemma closing_tag_no_straddle:
  "0 < k \<Longrightarrow> k < 5 \<Longrightarrow> \<not> startsWithCI ''</span>'' (drop k ''<span'')"
  "0 < k \<Longrightarrow> k < 6 \<Longrightarrow> \<not> startsWithCI ''</span>'' (drop k ''</span'')"
  by (auto simp: less_Suc_eq numeral_eq_Suc)

lemma tagAt_before_closing_tag:
  assumes "t \<noteq> []" "\<not> startsWithCI t ''<span''" "\<not> startsWithCI t ''</span''"
  shows "tagAt (t @ ''</span>'') = None"
proof -
  from assms(1) have pos: "0 < length t" by simp
  have "\<not> startsWithCI (t @ ''</span>'') ''<span''"
    using startsWithCI_append_left [of t "''</span>''" "''<span''"] assms(2)
      closing_tag_no_straddle(1) [OF pos]
    by auto
  moreover have "\<not> startsWithCI (t @ ''</span>'') ''</span''"
    using startsWithCI_append_left [of t "''</span>''" "''</span''"] assms(3)
      closing_tag_no_straddle(2) [OF pos]
    by auto
  ultimately show ?thesis by (rule tagAt_no_fragment)
qed

lemma regexExec_before_closing_tag:
  "\<not> hasSpanFragment t \<Longrightarrow> regexExec tagAt (t @ ''</span>'') = Some (length t, 7)"
proof (induction t)
  case Nil
  show ?case by code_simp
next
  case (Cons c cs)
  then have "tagAt ((c # cs) @ ''</span>'') = None"
    by (intro tagAt_before_closing_tag) simp_all
  with Cons show ?case by simp
qed

text \<open>
  The segments of an opening tag, a text without span fragments and a plain closing tag:
  the text alone, under the span of the opening tag.
\<close>

lemma parseSelection_wrapped:
  assumes op: "\<And>r. tagAt (op @ r) = Some (length op)"
    and nc: "\<not> startsWith op ''</span''"
    and t: "t \<noteq> []" "\<not> hasSpanFragment t"
  shows "parseSelection (op @ t @ ''</span>'')
         = [\<lparr>text' = t, start = length op, end' = length op + length t,
              span = Some (spanOfTag op 0)\<rparr>]"
proof -
  define s where "s = op @ t @ ''</span>''"
  have len: "length s = length op + length t + 7"
    by (simp add: s_def)
  have first: "regexExec tagAt (drop 0 s) = Some (0, length op)"
    using op [of "t @ ''</span>''"] by (simp add: s_def regexExec_head)
  have second: "regexExec tagAt (drop (length op) s) = Some (length t, 7)"
    using t(2) by (simp add: s_def regexExec_before_closing_tag)
  have step1: "parseLoop s 0 None [] = parseLoop s (length op) (Some (spanOfTag op 0)) []"
    using first nc len
    by (subst parseLoop.simps) (simp add: Let_def s_def)
  have step2: "parseLoop s (length op) (Some (spanOfTag op 0)) []
               = parseLoop s (length s) None
                   [\<lparr>text' = t, start = length op, end' = length op + length t,
                      span = Some (spanOfTag op 0)\<rparr>]"
    using second t(1) len
    by (subst parseLoop.simps) (simp add: Let_def s_def substring_def)
  have step3: "parseLoop s (length s) None segs = segs" for segs
    by (subst parseLoop.simps) simp
  show ?thesis
    unfolding s_def [symmetric]
    by (simp add: parseSelection_def step1 step2 step3)
qed

lemma reconstructSpan_plain: "reconstructSpan t ([], []) = t"
  by (simp add: reconstructSpan_def styleAttrValueOf_def uniqueClassesOf_def trim_def)

lemma reconstructSpan_class_only:
  "c \<noteq> [] \<Longrightarrow> reconstructSpan t ([c], []) = openingTagOf [c] [] @ t @ ''</span>''"
  by (simp add: reconstructSpan_def styleAttrValueOf_def uniqueClassesOf_def trim_def)

lemma applyStyle_boolean:
  "applyStyle cfg Bold v ([], []) = ([''styler-bold''], [])"
  "applyStyle cfg Italic v ([], []) = ([''styler-italic''], [])"
  "applyStyle cfg Strike v ([], []) = ([''styler-strike''], [])"
  by (simp_all add: applyStyle_def targetClassOf_simps includes'_def)

lemma removeStyle_boolean:
  "removeStyle Bold ([''styler-bold''], []) = ([], [])"
  "removeStyle Italic ([''styler-italic''], []) = ([], [])"
  "removeStyle Strike ([''styler-strike''], []) = ([], [])"
  by code_simp+

lemma cleanup_boolean:
  "cleanup ([], []) = ([], [])"
  "cleanup ([''styler-bold''], []) = ([''styler-bold''], [])"
  "cleanup ([''styler-italic''], []) = ([''styler-italic''], [])"
  "cleanup ([''styler-strike''], []) = ([''styler-strike''], [])"
  by code_simp+

lemma initialState_None: "initialState None = ([], [])"
  by (simp add: initialState_def readCssVariables_def)

lemma openingTag_boolean:
  \<open>openingTagOf [''styler-bold''] [] = ''<span class="styler-bold">''\<close>
  \<open>openingTagOf [''styler-italic''] [] = ''<span class="styler-italic">''\<close>
  \<open>openingTagOf [''styler-strike''] [] = ''<span class="styler-strike">''\<close>
  by (simp_all add: openingTagOf_def)

lemma openingTag_boolean_tagAt:
  \<open>tagAt (''<span class="styler-bold">'' @ r) = Some (length ''<span class="styler-bold">'')\<close>
  \<open>tagAt (''<span class="styler-italic">'' @ r)
     = Some (length ''<span class="styler-italic">'')\<close>
  \<open>tagAt (''<span class="styler-strike">'' @ r)
     = Some (length ''<span class="styler-strike">'')\<close>
  by (simp_all add: tagAt_def)

lemma openingTag_boolean_state:
  \<open>initialState (Some (spanOfTag ''<span class="styler-bold">'' 0)) = ([''styler-bold''], [])\<close>
  \<open>initialState (Some (spanOfTag ''<span class="styler-italic">'' 0))
     = ([''styler-italic''], [])\<close>
  \<open>initialState (Some (spanOfTag ''<span class="styler-strike">'' 0))
     = ([''styler-strike''], [])\<close>
  by code_simp+

lemma toggleStyle_plain_boolean:
  assumes t: "t \<noteq> []" "\<not> hasSpanFragment t"
  shows \<open>toggleStyle cfg t Bold v = Replaced (''<span class="styler-bold">'' @ t @ ''</span>'')\<close>
    and \<open>toggleStyle cfg t Italic v
           = Replaced (''<span class="styler-italic">'' @ t @ ''</span>'')\<close>
    and \<open>toggleStyle cfg t Strike v
           = Replaced (''<span class="styler-strike">'' @ t @ ''</span>'')\<close>
  using t
  by (simp_all add: toggleStyle_def parseSelection_no_tag regexExec_no_fragment
      shouldApplyFor_def valueBased_def applyModificationToSegment_def reconcile_def
      initialState_None applyStyle_boolean cleanup_boolean reconstructSpan_class_only
      openingTag_boolean)

lemma toggleStyle_wrapped_boolean:
  assumes t: "t \<noteq> []" "\<not> hasSpanFragment t"
  shows \<open>toggleStyle cfg (''<span class="styler-bold">'' @ t @ ''</span>'') Bold v = Replaced t\<close>
    and \<open>toggleStyle cfg (''<span class="styler-italic">'' @ t @ ''</span>'') Italic v
           = Replaced t\<close>
    and \<open>toggleStyle cfg (''<span class="styler-strike">'' @ t @ ''</span>'') Strike v
           = Replaced t\<close>
proof -
  have seg: \<open>parseSelection (''<span class="styler-bold">'' @ t @ ''</span>'')
         = [\<lparr>text' = t, start = length ''<span class="styler-bold">'',
              end' = length ''<span class="styler-bold">'' + length t,
              span = Some (spanOfTag ''<span class="styler-bold">'' 0)\<rparr>]\<close>
    \<open>parseSelection (''<span class="styler-italic">'' @ t @ ''</span>'')
         = [\<lparr>text' = t, start = length ''<span class="styler-italic">'',
              end' = length ''<span class="styler-italic">'' + length t,
              span = Some (spanOfTag ''<span class="styler-italic">'' 0)\<rparr>]\<close>
    \<open>parseSelection (''<span class="styler-strike">'' @ t @ ''</span>'')
         = [\<lparr>text' = t, start = length ''<span class="styler-strike">'',
              end' = length ''<span class="styler-strike">'' + length t,
              span = Some (spanOfTag ''<span class="styler-strike">'' 0)\<rparr>]\<close>
    by (rule parseSelection_wrapped; (rule openingTag_boolean_tagAt | rule t | simp))+
  have cls: \<open>classList (spanOfTag ''<span class="styler-bold">'' 0) = [''styler-bold'']\<close>
    \<open>classList (spanOfTag ''<span class="styler-italic">'' 0) = [''styler-italic'']\<close>
    \<open>classList (spanOfTag ''<span class="styler-strike">'' 0) = [''styler-strike'']\<close>
    by code_simp+
  have nonempty: "\<And>a b. (a @ t @ b = []) = False"
    using t(1) by simp
  show \<open>toggleStyle cfg (''<span class="styler-bold">'' @ t @ ''</span>'') Bold v = Replaced t\<close>
    unfolding toggleStyle_def seg Let_def
    by (simp add: nonempty shouldApplyFor_def valueBased_def spanIsActive_def
        targetClassOf_simps includes'_def cls applyModificationToSegment_def reconcile_def
        openingTag_boolean_state removeStyle_boolean cleanup_boolean reconstructSpan_plain)
  show \<open>toggleStyle cfg (''<span class="styler-italic">'' @ t @ ''</span>'') Italic v
          = Replaced t\<close>
    unfolding toggleStyle_def seg Let_def
    by (simp add: nonempty shouldApplyFor_def valueBased_def spanIsActive_def
        targetClassOf_simps includes'_def cls applyModificationToSegment_def reconcile_def
        openingTag_boolean_state removeStyle_boolean cleanup_boolean reconstructSpan_plain)
  show \<open>toggleStyle cfg (''<span class="styler-strike">'' @ t @ ''</span>'') Strike v
          = Replaced t\<close>
    unfolding toggleStyle_def seg Let_def
    by (simp add: nonempty shouldApplyFor_def valueBased_def spanIsActive_def
        targetClassOf_simps includes'_def cls applyModificationToSegment_def reconcile_def
        openingTag_boolean_state removeStyle_boolean cleanup_boolean reconstructSpan_plain)
qed

text \<open>
  Claim C8, as the code has it. For a non-empty text that holds no \<open><span\<close> and no
  \<open></span\<close> (in any letter case), and for bold, italic and strikethrough, the first toggle
  wraps the text in a span with the kind's class and the second toggle, on that result,
  gives the text back. A text that holds no complete tag but the start of one is not
  enough: the closing tag that the first toggle adds completes it, as in
  \<open>C8_counterexample\<close>.
\<close>

theorem C8_toggle_twice:
  assumes "t \<noteq> []" and "\<not> hasSpanFragment t"
    and "styleType = Bold \<or> styleType = Italic \<or> styleType = Strike"
    and "targetClassOf styleType = Some c"
  shows "toggleStyle cfg t styleType v = Replaced (openingTagOf [c] [] @ t @ ''</span>'')
         \<and> toggleStyle cfg (openingTagOf [c] [] @ t @ ''</span>'') styleType v = Replaced t"
proof -
  from assms(3,4) consider "styleType = Bold" "c = ''styler-bold''"
    | "styleType = Italic" "c = ''styler-italic''"
    | "styleType = Strike" "c = ''styler-strike''"
    by (auto simp: targetClassOf_simps)
  then show ?thesis
  proof cases
    case 1
    show ?thesis
      unfolding 1 openingTag_boolean
      using toggleStyle_plain_boolean(1) [OF assms(1,2)]
        toggleStyle_wrapped_boolean(1) [OF assms(1,2)]
      by (intro conjI)
  next
    case 2
    show ?thesis
      unfolding 2 openingTag_boolean
      using toggleStyle_plain_boolean(2) [OF assms(1,2)]
        toggleStyle_wrapped_boolean(2) [OF assms(1,2)]
      by (intro conjI)
  next
    case 3
    show ?thesis
      unfolding 3 openingTag_boolean
      using toggleStyle_plain_boolean(3) [OF assms(1,2)]
        toggleStyle_wrapped_boolean(3) [OF assms(1,2)]
      by (intro conjI)
  qed
qed

theorem C8_counterexample:
  \<open>regexExec tagAt ''<span'' = None
   \<and> toggleStyle exampleSettings ''<span'' Bold None
     = Replaced ''<span class="styler-bold"><span</span>''
   \<and> toggleStyle exampleSettings ''<span class="styler-bold"><span</span>'' Bold None
     = Replaced ''<span class="styler-bold"><span class="styler-bold"><span</span></span>''\<close>
  by code_simp

theorem C8_witness:
  \<open>\<not> hasSpanFragment ''hello''
   \<and> toggleStyle exampleSettings ''hello'' Italic None
     = Replaced (openingTagOf [''styler-italic''] [] @ ''hello'' @ ''</span>'')
   \<and> toggleStyle exampleSettings (openingTagOf [''styler-italic''] [] @ ''hello'' @ ''</span>'')
       Italic None
     = Replaced ''hello''\<close>
proof -
  have a: "''hello'' \<noteq> []"
    by simp
  have b: "\<not> hasSpanFragment ''hello''"
    by code_simp
  have c: "Italic = Bold \<or> Italic = Italic \<or> Italic = Strike"
    by simp
  have d: "targetClassOf Italic = Some ''styler-italic''"
    by (simp add: targetClassOf_simps)
  show ?thesis
    using b C8_toggle_twice [OF a b c d, of exampleSettings None] by blast
qed

end
